theory Spec2Isabelle
  imports Main "HOL-Library.Word" "HOL-Library.Log_Nat"
begin

unbundle bit_operations_syntax

section \<open>Maxus T90 EV decoder (vehicle\_maxt90.cpp)\<close>

text \<open>
  The module decodes native CAN frames (\<^verbatim>\<open>IncomingFrameCan1\<close>) and extended OBD-II poll
  replies (\<^verbatim>\<open>IncomingPollReply\<close>) into OVMS metrics. The embedding below follows
  vehicle\_maxt90.cpp case by case. The member variables, the function-local static
  \<^verbatim>\<open>last_state\<close>, the poll state of the base class and the metrics the module touches
  are the fields of one state record; every handler takes the state and returns the new
  one. Each call of \<^verbatim>\<open>SetValue\<close> is also appended to a log, so that "a metric is written"
  is a statement about the log.
\<close>

subsection \<open>Single-precision arithmetic\<close>

text \<open>
  The C type \<^verbatim>\<open>float\<close> is IEEE 754 binary32. A finite binary32 value is modelled by the
  rational number it denotes, and every arithmetic operation by the exact operation
  followed by rounding to 24 significant bits, nearest value, ties to the even
  significand. The exponent is not bounded in the model: every value the decoder
  computes is 0 or lies between \<open>1/164\<close> and \<open>2^24\<close>, far inside the normal range of
  binary32, so neither overflow nor subnormal numbers occur.
\<close>

type_synonym f32 = rat

definition pow2 :: "int \<Rightarrow> rat" where
  "pow2 e = (if 0 \<le> e then 2 ^ nat e else 1 / 2 ^ nat (- e))"

text \<open>The binary exponent of a positive rational: \<open>pow2 (ilog2 x) \<le> x < pow2 (ilog2 x + 1)\<close>.\<close>

definition ilog2 :: "rat \<Rightarrow> int" where
  "ilog2 x = (let (a, b) = quotient_of x;
                  e = bitlen a - bitlen b
              in if pow2 e \<le> x then e else e - 1)"

definition round_half_even :: "rat \<Rightarrow> int" where
  "round_half_even q =
     (let n = \<lfloor>q\<rfloor>; r = q - of_int n
      in if r < 1 / 2 then n
         else if 1 / 2 < r then n + 1
         else if even n then n else n + 1)"

definition f32_round :: "rat \<Rightarrow> f32" where
  "f32_round x =
     (if x = 0 then 0
      else let u = pow2 (ilog2 \<bar>x\<bar> - 23)
           in sgn x * of_int (round_half_even (\<bar>x\<bar> / u)) * u)"

definition f32_of_nat :: "nat \<Rightarrow> f32" where
  "f32_of_nat n = f32_round (of_nat n)"

definition f32_mul :: "f32 \<Rightarrow> f32 \<Rightarrow> f32" where
  "f32_mul a b = f32_round (a * b)"

definition f32_div :: "f32 \<Rightarrow> f32 \<Rightarrow> f32" where
  "f32_div a b = f32_round (a / b)"

text \<open>The literal \<^verbatim>\<open>0.1f\<close>; the other literals of the source are exact in binary32.\<close>

definition lit_0_1f :: f32 where
  "lit_0_1f = f32_round (1 / 10)"

subsection \<open>Frames, replies and the byte helpers\<close>

type_synonym u8 = "8 word"
type_synonym u16 = "16 word"
type_synonym u32 = "32 word"

text \<open>\<^verbatim>\<open>p_frame->data.u8\<close> is an array of eight bytes whatever the DLC says.\<close>

datatype can_data = CanData (d0: u8) (d1: u8) (d2: u8) (d3: u8) (d4: u8) (d5: u8) (d6: u8) (d7: u8)

text \<open>
  \<open>origin\<close> is the number of the bus the frame came from (the source compares the bus
  pointer with \<^verbatim>\<open>m_can1\<close>, the bus registered as number 1); \<open>DLC\<close> is \<^verbatim>\<open>FIR.B.DLC\<close>.
\<close>

record CAN_frame_t =
  origin :: nat
  MsgID :: u32
  DLC :: nat
  data :: can_data

definition m_can1 :: nat where
  "m_can1 = 1"

text \<open>
  \<^verbatim>\<open>u16be(p) = (uint16_t(p[0]) << 8) | uint16_t(p[1])\<close>; the pointer is modelled by the two
  bytes it reads.
\<close>

definition u16be :: "u8 \<Rightarrow> u8 \<Rightarrow> u16" where
  "u16be p0 p1 = push_bit 8 (ucast p0) OR ucast p1"

subsection \<open>Metrics and module state\<close>

datatype metric =
    Ms_v_env_handbrake | Ms_v_env_locked | Ms_v_charge_voltage | Ms_v_charge_current
  | Ms_v_charge_power | Ms_v_pos_odometer | Ms_v_vin | Ms_v_bat_soc | Ms_v_bat_soh
  | Ms_v_bat_capacity | Ms_v_env_on | Ms_v_charge_pilot | Ms_v_env_temp | Xmt_v_hvac_temp

datatype mvalue = MBool bool | MFloat f32 | MString string

text \<open>
  Modelled from the spec: the metric store (\<^verbatim>\<open>OvmsMetricFloat\<close>, \<^verbatim>\<open>OvmsMetricBool\<close>,
  \<^verbatim>\<open>OvmsMetricString\<close>, \<^verbatim>\<open>StdMetrics\<close>) and the poller's \<^verbatim>\<open>PollSetState\<close> are not part
  of the module's source. The spec describes the store as a named-value store holding a
  last value per metric, created at construction, and the poll state as a value the module
  requests. Here every metric is a field holding its current value (\<^verbatim>\<open>AsFloat\<close> and
  \<^verbatim>\<open>AsBool\<close> of a metric never set are 0 and false), \<open>published\<close> lists the
  \<^verbatim>\<open>SetValue\<close> calls the module has made since its construction, in the order they were
  made, and \<^verbatim>\<open>PollSetState n\<close> stores \<open>n\<close> in \<open>m_poll_state\<close>.
\<close>

record state =
  m_ac_voltage :: f32
  m_ac_current :: f32
  last_state :: u8
  m_poll_state :: nat
  m_pack_capacity_kwh :: f32
  m_hvac_temp_c :: f32
  ms_v_env_handbrake :: bool
  ms_v_env_locked :: bool
  ms_v_charge_voltage :: f32
  ms_v_charge_current :: f32
  ms_v_charge_power :: f32
  ms_v_pos_odometer :: f32
  ms_v_vin :: string
  ms_v_bat_soc :: f32
  ms_v_bat_soh :: f32
  ms_v_bat_capacity :: f32
  ms_v_env_on :: bool
  ms_v_charge_pilot :: bool
  ms_v_env_temp :: f32
  published :: "(metric \<times> mvalue) list"

definition publish :: "metric \<Rightarrow> mvalue \<Rightarrow> state \<Rightarrow> state" where
  "publish m v s = s\<lparr>published := published s @ [(m, v)]\<rparr>"

definition PollSetState :: "nat \<Rightarrow> state \<Rightarrow> state" where
  "PollSetState n s = s\<lparr>m_poll_state := n\<rparr>"

text \<open>
  What the module finds when the firmware has just started: the static \<^verbatim>\<open>last_state\<close> at
  its initialiser 0 and a store in which no metric was ever set.
\<close>

definition fresh_store :: state where
  "fresh_store =
     \<lparr> m_ac_voltage = 0, m_ac_current = 0, last_state = 0, m_poll_state = 0,
       m_pack_capacity_kwh = 0, m_hvac_temp_c = 0,
       ms_v_env_handbrake = False, ms_v_env_locked = False,
       ms_v_charge_voltage = 0, ms_v_charge_current = 0, ms_v_charge_power = 0,
       ms_v_pos_odometer = 0, ms_v_vin = [], ms_v_bat_soc = 0, ms_v_bat_soh = 0,
       ms_v_bat_capacity = 0, ms_v_env_on = False, ms_v_charge_pilot = False,
       ms_v_env_temp = 0, published = [] \<rparr>"

text \<open>
  The constructor, as a function of the state the module is constructed on. The standard
  metrics live in the global store and \<^verbatim>\<open>last_state\<close> is a function-local static: the
  constructor writes none of them (but the usable capacity), so they keep what they held,
  whatever an earlier module or another writer left there. The constructor creates the
  two custom metrics with the values 0 and 88.5, seeds the usable capacity with the
  nominal capacity (the first write of the log), sets the poll state to 0 and the two
  cached AC values to 0.
\<close>

definition OvmsVehicleMaxt90 :: "state \<Rightarrow> state" where
  "OvmsVehicleMaxt90 s0 =
     (let s1 = s0\<lparr>m_hvac_temp_c := 0, published := []\<rparr>;
          s2 = s1\<lparr>m_pack_capacity_kwh := 177 / 2\<rparr>;
          s3 = publish Ms_v_bat_capacity (MFloat (m_pack_capacity_kwh s2))
                 (s2\<lparr>ms_v_bat_capacity := m_pack_capacity_kwh s2\<rparr>);
          s4 = PollSetState 0 s3
      in s4\<lparr>m_ac_voltage := 0, m_ac_current := 0\<rparr>)"

subsection \<open>IncomingFrameCan1\<close>

text \<open>
  The call of the base class (\<^verbatim>\<open>OvmsVehicleOBDII::IncomingFrameCan1\<close>, generic logging
  and diagnostics) and the log output touch none of the state modelled here and are left
  out.
\<close>

text \<open>Handbrake, CAN ID 0x266: bit 0 of byte 2, after a check of the DLC.\<close>

definition case_0x266 :: "CAN_frame_t \<Rightarrow> state \<Rightarrow> state" where
  "case_0x266 f s =
     (if DLC f < 3 then s
      else let handbrake_on = (d2 (data f) AND 0x01 \<noteq> 0)
           in publish Ms_v_env_handbrake (MBool handbrake_on)
                (s\<lparr>ms_v_env_handbrake := handbrake_on\<rparr>))"

text \<open>Lock state, CAN ID 0x281: byte 1, compared with the static \<^verbatim>\<open>last_state\<close>.\<close>

definition case_0x281 :: "CAN_frame_t \<Rightarrow> state \<Rightarrow> state" where
  "case_0x281 f s =
     (let st = d1 (data f)
      in if st \<noteq> last_state s \<and> (st = 0xA9 \<or> st = 0xA8) then
           (let locked = (st = 0xA9);
                s1 = publish Ms_v_env_locked (MBool locked) (s\<lparr>ms_v_env_locked := locked\<rparr>)
            in s1\<lparr>last_state := st\<rparr>)
         else s)"

text \<open>AC line voltage, CAN ID 0x362: bytes 0..1 big-endian, V * 100.\<close>

definition case_0x362 :: "CAN_frame_t \<Rightarrow> state \<Rightarrow> state" where
  "case_0x362 f s =
     (let raw = u16be (d0 (data f)) (d1 (data f));
          v = f32_div (f32_of_nat (unat raw)) 100
      in if 150 \<le> v \<and> v \<le> 280 then
           (let s1 = s\<lparr>m_ac_voltage := v\<rparr>;
                s2 = publish Ms_v_charge_voltage (MFloat v) (s1\<lparr>ms_v_charge_voltage := v\<rparr>)
            in if lit_0_1f < m_ac_current s2 then
                 (let p_kw = f32_div (f32_mul (m_ac_voltage s2) (m_ac_current s2)) 1000
                  in publish Ms_v_charge_power (MFloat p_kw) (s2\<lparr>ms_v_charge_power := p_kw\<rparr>))
               else s2)
         else s)"

text \<open>AC line current, CAN ID 0x373: bytes 0..1 big-endian, divided by 164.\<close>

definition case_0x373 :: "CAN_frame_t \<Rightarrow> state \<Rightarrow> state" where
  "case_0x373 f s =
     (let raw = u16be (d0 (data f)) (d1 (data f));
          i = f32_div (f32_of_nat (unat raw)) 164
      in if lit_0_1f \<le> i \<and> i \<le> 40 then
           (let s1 = s\<lparr>m_ac_current := i\<rparr>;
                s2 = publish Ms_v_charge_current (MFloat i) (s1\<lparr>ms_v_charge_current := i\<rparr>)
            in if 10 < m_ac_voltage s2 then
                 (let p_kw = f32_div (f32_mul (m_ac_voltage s2) (m_ac_current s2)) 1000
                  in publish Ms_v_charge_power (MFloat p_kw) (s2\<lparr>ms_v_charge_power := p_kw\<rparr>))
               else s2)
         else s)"

text \<open>Gear candidate, CAN ID 0x510: byte 3 is logged only, after a check of the DLC.\<close>

definition case_0x510 :: "CAN_frame_t \<Rightarrow> state \<Rightarrow> state" where
  "case_0x510 f s = (if DLC f < 4 then s else s)"

text \<open>Odometer, CAN ID 0x540: bytes 4..6 little-endian, 0.1 km.\<close>

definition case_0x540 :: "CAN_frame_t \<Rightarrow> state \<Rightarrow> state" where
  "case_0x540 f s =
     (let raw = (ucast (d4 (data f)) OR push_bit 8 (ucast (d5 (data f)))
                  OR push_bit 16 (ucast (d6 (data f))) :: u32);
          km = f32_div (f32_of_nat (unat raw)) 10
      in if 0 < km \<and> km < 1000000 then
           (if ms_v_pos_odometer s \<noteq> km then
              publish Ms_v_pos_odometer (MFloat km) (s\<lparr>ms_v_pos_odometer := km\<rparr>)
            else s)
         else s)"

definition IncomingFrameCan1 :: "CAN_frame_t \<Rightarrow> state \<Rightarrow> state" where
  "IncomingFrameCan1 f s =
     (if origin f \<noteq> m_can1 then s
      else if MsgID f = 0x266 then case_0x266 f s
      else if MsgID f = 0x281 then case_0x281 f s
      else if MsgID f = 0x362 then case_0x362 f s
      else if MsgID f = 0x373 then case_0x373 f s
      else if MsgID f = 0x510 then case_0x510 f s
      else if MsgID f = 0x540 then case_0x540 f s
      else s)"

subsection \<open>IncomingPollReply\<close>

text \<open>
  The reply buffer \<^verbatim>\<open>data\<close> with its \<^verbatim>\<open>length\<close> is modelled as the list of its
  \<^verbatim>\<open>length\<close> bytes; every read of the source is behind a check of the length.
\<close>

text \<open>\<^verbatim>\<open>std::string vin(data, data + length)\<close>: the bytes, one character each.\<close>

definition string_of_bytes :: "u8 list \<Rightarrow> string" where
  "string_of_bytes bs = map (\<lambda>b. char_of (unat b)) bs"

definition case_0xF190 :: "u8 list \<Rightarrow> state \<Rightarrow> state" where
  "case_0xF190 dat s =
     (if 1 \<le> length dat then
        (let vin = string_of_bytes dat
         in publish Ms_v_vin (MString vin) (s\<lparr>ms_v_vin := vin\<rparr>))
      else s)"

definition case_0xE002 :: "u8 list \<Rightarrow> state \<Rightarrow> state" where
  "case_0xE002 dat s =
     (if 1 \<le> length dat then
        (let soc = f32_of_nat (unat (dat ! 0))
         in if 0 < soc \<and> soc \<le> 100 then
              (if ms_v_bat_soc s \<noteq> soc then
                 publish Ms_v_bat_soc (MFloat soc) (s\<lparr>ms_v_bat_soc := soc\<rparr>)
               else s)
            else s)
      else s)"

definition case_0xE003 :: "u8 list \<Rightarrow> state \<Rightarrow> state" where
  "case_0xE003 dat s =
     (if 2 \<le> length dat then
        (let raw = u16be (dat ! 0) (dat ! 1);
             soh = f32_div (f32_of_nat (unat raw)) 100
         in if raw = 0xFFFF \<or> raw = 0x1800 \<or> soh \<le> 50 \<or> 150 < soh then s
            else if ms_v_bat_soh s \<noteq> soh then
              (let s1 = publish Ms_v_bat_soh (MFloat soh) (s\<lparr>ms_v_bat_soh := soh\<rparr>);
                   usable_kwh = f32_mul (m_pack_capacity_kwh s1) (f32_div soh 100)
               in publish Ms_v_bat_capacity (MFloat usable_kwh)
                    (s1\<lparr>ms_v_bat_capacity := usable_kwh\<rparr>))
            else s)
      else s)"

definition case_0xE004 :: "u8 list \<Rightarrow> state \<Rightarrow> state" where
  "case_0xE004 dat s =
     (if 2 \<le> length dat then
        (let v = u16be (dat ! 0) (dat ! 1);
             ready = (v AND 0x000C \<noteq> 0);
             prev_ready = ms_v_env_on s;
             s1 = publish Ms_v_env_on (MBool ready) (s\<lparr>ms_v_env_on := ready\<rparr>)
         in if ready \<noteq> prev_ready then
              (if \<not> ready \<and> m_poll_state s1 \<noteq> 0 then PollSetState 0 s1
               else if ready \<and> m_poll_state s1 = 0 then PollSetState 1 s1
               else s1)
            else s1)
      else s)"

definition case_0xE009 :: "u8 list \<Rightarrow> state \<Rightarrow> state" where
  "case_0xE009 dat s =
     (if 2 \<le> length dat then
        (let v = u16be (dat ! 0) (dat ! 1);
             plug_present = (v AND 0x00FF = 0x00)
         in publish Ms_v_charge_pilot (MBool plug_present)
              (s\<lparr>ms_v_charge_pilot := plug_present\<rparr>))
      else s)"

text \<open>
  \<^verbatim>\<open>m_hvac_temp_c\<close> is the pointer the constructor got from \<^verbatim>\<open>InitFloat\<close>: it is not
  null, and the test of it in the source is always true.
\<close>

definition case_0xE010 :: "u8 list \<Rightarrow> state \<Rightarrow> state" where
  "case_0xE010 dat s =
     (if 2 \<le> length dat then
        (let raw = u16be (dat ! 0) (dat ! 1);
             t = f32_div (f32_of_nat (unat raw)) 10;
             env_on = ms_v_env_on s
         in if \<not> env_on \<and> raw = 458 then s
            else if raw = 0x0200 \<or> raw = 0xFFFF \<or> t < - 40 \<or> 125 < t then s
            else publish Xmt_v_hvac_temp (MFloat t) (s\<lparr>m_hvac_temp_c := t\<rparr>))
      else s)"

definition case_0xE025 :: "u8 list \<Rightarrow> state \<Rightarrow> state" where
  "case_0xE025 dat s =
     (if 2 \<le> length dat then
        (let raw = u16be (dat ! 0) (dat ! 1);
             ta = f32_div (f32_of_nat (unat raw)) 10;
             env_on = ms_v_env_on s
         in if \<not> env_on \<and> raw = 75 then s
            else if raw = 0x0200 \<or> raw = 0xFFFF \<or> ta < - 50 \<or> 80 < ta then s
            else publish Ms_v_env_temp (MFloat ta) (s\<lparr>ms_v_env_temp := ta\<rparr>))
      else s)"

definition IncomingPollReply :: "u16 \<Rightarrow> u8 list \<Rightarrow> state \<Rightarrow> state" where
  "IncomingPollReply pid dat s =
     (if pid = 0xF190 then case_0xF190 dat s
      else if pid = 0xE002 then case_0xE002 dat s
      else if pid = 0xE003 then case_0xE003 dat s
      else if pid = 0xE004 then case_0xE004 dat s
      else if pid = 0xE009 then case_0xE009 dat s
      else if pid = 0xE010 then case_0xE010 dat s
      else if pid = 0xE025 then case_0xE025 dat s
      else s)"

subsection \<open>Runs\<close>

text \<open>
  Frames and replies are handled to completion one after the other. A run is the list of
  the events delivered since construction, oldest first; \<open>run s0 evs\<close> is the state after
  the module was constructed on \<open>s0\<close> and has handled \<open>evs\<close>.
\<close>

datatype event = Frame CAN_frame_t | PollReply u16 "u8 list"

fun handle :: "event \<Rightarrow> state \<Rightarrow> state" where
  "handle (Frame f) s = IncomingFrameCan1 f s"
| "handle (PollReply pid dat) s = IncomingPollReply pid dat s"

definition run :: "state \<Rightarrow> event list \<Rightarrow> state" where
  "run s0 evs = foldl (\<lambda>s e. handle e s) (OvmsVehicleMaxt90 s0) evs"

subsection \<open>Vocabulary of the specification\<close>

text \<open>
  The values published to one metric, oldest first. A metric "is written" by an event when
  this list grows.
\<close>

definition writes_of :: "metric \<Rightarrow> state \<Rightarrow> mvalue list" where
  "writes_of m s = map snd (filter (\<lambda>w. fst w = m) (published s))"

text \<open>The decoded AC voltage and AC current of a frame, as cases 0x362 and 0x373 compute them.\<close>

definition voltage_of :: "CAN_frame_t \<Rightarrow> f32" where
  "voltage_of f = f32_div (f32_of_nat (unat (u16be (d0 (data f)) (d1 (data f))))) 100"

definition current_of :: "CAN_frame_t \<Rightarrow> f32" where
  "current_of f = f32_div (f32_of_nat (unat (u16be (d0 (data f)) (d1 (data f))))) 164"

text \<open>The derived power in kW, \<^verbatim>\<open>(m_ac_voltage * m_ac_current) / 1000.0f\<close>.\<close>

definition power_kw :: "f32 \<Rightarrow> f32 \<Rightarrow> f32" where
  "power_kw v i = f32_div (f32_mul v i) 1000"

text \<open>An accepted AC-voltage sample: a frame 0x362 of the vehicle bus inside 150..280 V.\<close>

fun accepted_voltage :: "event \<Rightarrow> bool" where
  "accepted_voltage (Frame f) =
     (origin f = m_can1 \<and> MsgID f = 0x362 \<and> 150 \<le> voltage_of f \<and> voltage_of f \<le> 280)"
| "accepted_voltage (PollReply pid dat) = False"

text \<open>An accepted AC-current sample: a frame 0x373 of the vehicle bus inside 0.1..40 A.\<close>

fun accepted_current :: "event \<Rightarrow> bool" where
  "accepted_current (Frame f) =
     (origin f = m_can1 \<and> MsgID f = 0x373 \<and> lit_0_1f \<le> current_of f \<and> current_of f \<le> 40)"
| "accepted_current (PollReply pid dat) = False"

fun voltage_sample :: "event \<Rightarrow> f32" where
  "voltage_sample (Frame f) = voltage_of f"
| "voltage_sample (PollReply pid dat) = 0"

fun current_sample :: "event \<Rightarrow> f32" where
  "current_sample (Frame f) = current_of f"
| "current_sample (PollReply pid dat) = 0"

text \<open>
  What the specification says a cache holds after a run: the construction default 0, or
  the most recently accepted sample of its own signal.
\<close>

definition latest_voltage :: "event list \<Rightarrow> f32" where
  "latest_voltage evs =
     (if filter accepted_voltage evs = [] then 0
      else voltage_sample (last (filter accepted_voltage evs)))"

definition latest_current :: "event list \<Rightarrow> f32" where
  "latest_current evs =
     (if filter accepted_current evs = [] then 0
      else current_sample (last (filter accepted_current evs)))"

text \<open>The decoded SOH of a reply, as case 0xE003 computes it.\<close>

definition soh_raw :: "u8 list \<Rightarrow> u16" where
  "soh_raw dat = u16be (dat ! 0) (dat ! 1)"

definition soh_of :: "u8 list \<Rightarrow> f32" where
  "soh_of dat = f32_div (f32_of_nat (unat (soh_raw dat))) 100"

text \<open>An accepted SOH sample.\<close>

definition soh_accepted :: "u8 list \<Rightarrow> bool" where
  "soh_accepted dat =
     (2 \<le> length dat \<and> soh_raw dat \<noteq> 0xFFFF \<and> soh_raw dat \<noteq> 0x1800 \<and>
      50 < soh_of dat \<and> soh_of dat \<le> 150)"

text \<open>An accepted SOH sample that differs from the SOH metric of the state it arrives in.\<close>

fun soh_update :: "event \<Rightarrow> state \<Rightarrow> bool" where
  "soh_update (PollReply pid dat) s =
     (pid = 0xE003 \<and> soh_accepted dat \<and> ms_v_bat_soh s \<noteq> soh_of dat)"
| "soh_update (Frame f) s = False"

fun soh_sample :: "event \<Rightarrow> f32" where
  "soh_sample (PollReply pid dat) = soh_of dat"
| "soh_sample (Frame f) = 0"

text \<open>The readiness computed from a READY reply: bit 2 or bit 3 of the 16-bit value.\<close>

definition ready_of :: "u8 list \<Rightarrow> bool" where
  "ready_of dat = (u16be (dat ! 0) (dat ! 1) AND 0x000C \<noteq> 0)"

text \<open>The decoded cabin temperature of a reply, as case 0xE010 computes it.\<close>

definition hvac_raw :: "u8 list \<Rightarrow> u16" where
  "hvac_raw dat = u16be (dat ! 0) (dat ! 1)"

definition hvac_temp_of :: "u8 list \<Rightarrow> f32" where
  "hvac_temp_of dat = f32_div (f32_of_nat (unat (hvac_raw dat))) 10"

subsection \<open>Example inputs\<close>

text \<open>A frame of the vehicle bus with a full payload.\<close>

definition can1_frame :: "u32 \<Rightarrow> nat \<Rightarrow> can_data \<Rightarrow> CAN_frame_t" where
  "can1_frame i n d = \<lparr>origin = 1, MsgID = i, DLC = n, data = d\<rparr>"

text \<open>AC voltage raw 22600 (0x5848), 226.00 V.\<close>

definition frame_226V :: CAN_frame_t where
  "frame_226V = can1_frame 0x362 8 (CanData 0x58 0x48 0 0 0 0 0 0)"

text \<open>AC current raw 2388 (0x0954), about 14.56 A.\<close>

definition frame_14A :: CAN_frame_t where
  "frame_14A = can1_frame 0x373 8 (CanData 0x09 0x54 0 0 0 0 0 0)"

text \<open>
  The poll state in step with the readiness metric: the state is 1 when the metric is true
  and 0 when it is false. Every event keeps this; a construction establishes it only on a
  store whose readiness metric is false.
\<close>

definition poll_inv :: "state \<Rightarrow> bool" where
  "poll_inv s = (m_poll_state s = (if ms_v_env_on s then 1 else 0))"

section \<open>Properties of the single-precision model\<close>

text \<open>
  The rounding function is monotone, exact on the integers below \<open>2^24\<close> (so the
  conversion of a 16-bit or 24-bit raw value to \<^verbatim>\<open>float\<close> loses nothing), and within a
  relative error of \<open>2^-24\<close>. With monotonicity a range test on a decoded value is a
  range test on the raw value.
\<close>

lemma pow2_powi: "pow2 e = 2 powi e"
  by (simp add: pow2_def power_int_def power_one_over inverse_eq_divide)

lemma pow2_pos: "0 < pow2 e"
  by (simp add: pow2_powi)

lemma pow2_add: "pow2 (a + b) = pow2 a * pow2 b"
  by (simp add: pow2_powi power_int_add)

lemma pow2_mono: "a \<le> b \<Longrightarrow> pow2 a \<le> pow2 b"
  by (simp add: pow2_powi power_int_increasing)

lemma pow2_strict_mono: "a < b \<Longrightarrow> pow2 a < pow2 b"
  by (simp add: pow2_powi power_int_strict_increasing)

lemma bitlen_pow2_bounds:
  assumes "0 < a"
  shows "pow2 (bitlen a - 1) \<le> of_int a" and "of_int a < pow2 (bitlen a)"
proof -
  from assms have b: "1 \<le> bitlen a" by (simp add: bitlen_alt_def)
  from bitlen_bounds [OF assms] have l: "2 ^ nat (bitlen a - 1) \<le> a" and u: "a < 2 ^ nat (bitlen a)"
    by simp_all
  have "(of_int (2 ^ nat (bitlen a - 1)) :: rat) \<le> of_int a"
    using l by (simp only: of_int_le_iff)
  with b show "pow2 (bitlen a - 1) \<le> of_int a"
    by (simp add: pow2_def)
  have "(of_int a :: rat) < of_int (2 ^ nat (bitlen a))"
    using u by (simp only: of_int_less_iff)
  with b show "of_int a < pow2 (bitlen a)"
    by (simp add: pow2_def)
qed

lemma ilog2_bounds:
  assumes "0 < x"
  shows "pow2 (ilog2 x) \<le> x" and "x < pow2 (ilog2 x + 1)"
proof -
  obtain a b where q: "quotient_of x = (a, b)" by (cases "quotient_of x")
  then have bp: "0 < b" by (rule quotient_of_denom_pos)
  from q have x: "x = of_int a / of_int b" by (rule quotient_of_div)
  with assms bp have ap: "0 < a" by (simp add: zero_less_divide_iff)
  let ?e = "bitlen a - bitlen b"
  have up: "x < pow2 (?e + 1)"
  proof -
    have "of_int a < pow2 (bitlen a)" using ap by (rule bitlen_pow2_bounds)
    also have "pow2 (bitlen a) = pow2 (?e + 1) * pow2 (bitlen b - 1)"
      by (simp add: pow2_add [symmetric])
    also have "\<dots> \<le> pow2 (?e + 1) * of_int b"
      using bitlen_pow2_bounds(1) [OF bp] pow2_pos [of "?e + 1"]
      by (simp add: mult_left_mono)
    finally have "of_int a < pow2 (?e + 1) * of_int b" .
    with bp show ?thesis by (simp add: x pos_divide_less_eq)
  qed
  have lo: "pow2 (?e - 1) \<le> x"
  proof -
    have "pow2 (?e - 1) * of_int b \<le> pow2 (?e - 1) * pow2 (bitlen b)"
      using bitlen_pow2_bounds(2) [OF bp] pow2_pos [of "?e - 1"]
      by (simp add: mult_left_mono)
    also have "\<dots> = pow2 (bitlen a - 1)"
      by (simp add: pow2_add [symmetric])
    also have "\<dots> \<le> of_int a" using ap by (rule bitlen_pow2_bounds)
    finally have "pow2 (?e - 1) * of_int b \<le> of_int a" .
    with bp show ?thesis by (simp add: x pos_le_divide_eq)
  qed
  show "pow2 (ilog2 x) \<le> x"
    using lo by (simp add: ilog2_def q Let_def)
  show "x < pow2 (ilog2 x + 1)"
    using up by (auto simp add: ilog2_def q Let_def not_le)
qed


lemma round_half_even_of_int: "round_half_even (of_int n) = n"
  by (simp add: round_half_even_def)

lemma round_half_even_range:
  "\<lfloor>q\<rfloor> \<le> round_half_even q" "round_half_even q \<le> \<lfloor>q\<rfloor> + 1"
  by (simp_all add: round_half_even_def Let_def)

lemma round_half_even_mono:
  assumes "q \<le> q'"
  shows "round_half_even q \<le> round_half_even q'"
proof (cases "\<lfloor>q\<rfloor> = \<lfloor>q'\<rfloor>")
  case True
  with assms show ?thesis
    by (auto simp add: round_half_even_def Let_def)
next
  case False
  with assms have "\<lfloor>q\<rfloor> < \<lfloor>q'\<rfloor>"
    using floor_mono [of q q'] by linarith
  with round_half_even_range(2) [of q] round_half_even_range(1) [of q'] show ?thesis
    by linarith
qed

lemma round_half_even_ge: "of_int m \<le> q \<Longrightarrow> m \<le> round_half_even q"
  using round_half_even_mono [of "of_int m" q] by (simp add: round_half_even_of_int)

lemma round_half_even_le: "q \<le> of_int m \<Longrightarrow> round_half_even q \<le> m"
  using round_half_even_mono [of q "of_int m"] by (simp add: round_half_even_of_int)

lemma f32_round_pos_eq:
  "0 < x \<Longrightarrow> f32_round x = of_int (round_half_even (x / pow2 (ilog2 x - 23))) * pow2 (ilog2 x - 23)"
  by (simp add: f32_round_def Let_def)

lemma pow2_split: "pow2 e = pow2 23 * pow2 (e - 23)" "pow2 (e + 1) = pow2 24 * pow2 (e - 23)"
  by (simp_all add: pow2_add [symmetric] add.commute)

lemma pow2_23: "pow2 23 = of_int (2 ^ 23)" "pow2 24 = of_int (2 ^ 24)"
  by (simp_all add: pow2_def)

lemma f32_round_binade:
  assumes "0 < x"
  shows "pow2 (ilog2 x) \<le> f32_round x" and "f32_round x \<le> pow2 (ilog2 x + 1)"
proof -
  let ?u = "pow2 (ilog2 x - 23)"
  have u: "0 < ?u" by (rule pow2_pos)
  from ilog2_bounds(1) [OF assms] have "pow2 23 * ?u \<le> x"
    by (simp add: pow2_split(1) [symmetric])
  with u have "pow2 23 \<le> x / ?u" by (simp add: pos_le_divide_eq)
  then have "2 ^ 23 \<le> round_half_even (x / ?u)"
    unfolding pow2_23 by (rule round_half_even_ge)
  then have "(of_int (2 ^ 23) :: rat) \<le> of_int (round_half_even (x / ?u))"
    by (simp only: of_int_le_iff)
  with u have "pow2 23 * ?u \<le> of_int (round_half_even (x / ?u)) * ?u"
    unfolding pow2_23 by (simp only: mult_le_cancel_right_pos)
  then show "pow2 (ilog2 x) \<le> f32_round x"
    by (simp add: f32_round_pos_eq [OF assms] pow2_split(1) [symmetric])
  from ilog2_bounds(2) [OF assms] have "x < pow2 24 * ?u"
    by (simp add: pow2_split(2) [symmetric])
  with u have "x / ?u \<le> pow2 24" by (simp add: pos_divide_le_eq)
  then have "round_half_even (x / ?u) \<le> 2 ^ 24"
    unfolding pow2_23 by (rule round_half_even_le)
  then have "(of_int (round_half_even (x / ?u)) :: rat) \<le> of_int (2 ^ 24)"
    by (simp only: of_int_le_iff)
  with u have "of_int (round_half_even (x / ?u)) * ?u \<le> pow2 24 * ?u"
    unfolding pow2_23 by (simp only: mult_le_cancel_right_pos)
  then show "f32_round x \<le> pow2 (ilog2 x + 1)"
    by (simp add: f32_round_pos_eq [OF assms] pow2_split(2) [symmetric])
qed

lemma f32_round_pos: "0 < x \<Longrightarrow> 0 < f32_round x"
  using f32_round_binade(1) [of x] pow2_pos [of "ilog2 x"] by simp

lemma ilog2_mono:
  assumes "0 < x" and "x \<le> y"
  shows "ilog2 x \<le> ilog2 y"
proof (rule ccontr)
  assume "\<not> ilog2 x \<le> ilog2 y"
  then have "ilog2 y + 1 \<le> ilog2 x" by simp
  then have "pow2 (ilog2 y + 1) \<le> pow2 (ilog2 x)" by (rule pow2_mono)
  with ilog2_bounds(1) [OF assms(1)] ilog2_bounds(2) [of y] assms show False
    by simp
qed

lemma f32_round_mono_pos:
  assumes "0 < x" and "x \<le> y"
  shows "f32_round x \<le> f32_round y"
proof -
  from assms have y: "0 < y" by simp
  from ilog2_mono [OF assms] consider "ilog2 x = ilog2 y" | "ilog2 x + 1 \<le> ilog2 y"
    by linarith
  then show ?thesis
  proof cases
    case 1
    let ?u = "pow2 (ilog2 y - 23)"
    have u: "0 < ?u" by (rule pow2_pos)
    with assms have "x / ?u \<le> y / ?u" by (simp add: divide_right_mono)
    then have "round_half_even (x / ?u) \<le> round_half_even (y / ?u)"
      by (rule round_half_even_mono)
    then have "(of_int (round_half_even (x / ?u)) :: rat) \<le> of_int (round_half_even (y / ?u))"
      by (simp only: of_int_le_iff)
    with u have "of_int (round_half_even (x / ?u)) * ?u \<le> of_int (round_half_even (y / ?u)) * ?u"
      by (simp only: mult_le_cancel_right_pos)
    then show ?thesis
      by (simp add: f32_round_pos_eq [OF assms(1)] f32_round_pos_eq [OF y] 1)
  next
    case 2
    then have "pow2 (ilog2 x + 1) \<le> pow2 (ilog2 y)" by (rule pow2_mono)
    with f32_round_binade(2) [OF assms(1)] f32_round_binade(1) [OF y] show ?thesis
      by simp
  qed
qed

lemma f32_round_0: "f32_round 0 = 0"
  by (simp add: f32_round_def)

lemma f32_round_mono:
  assumes "0 \<le> x" and "x \<le> y"
  shows "f32_round x \<le> f32_round y"
proof (cases "x = 0")
  case True
  show ?thesis
  proof (cases "y = 0")
    case True
    with \<open>x = 0\<close> show ?thesis by simp
  next
    case False
    with assms True have "0 < y" by simp
    then have "0 < f32_round y" by (rule f32_round_pos)
    with True show ?thesis by (simp add: f32_round_0)
  qed
next
  case False
  with assms have "0 < x" by simp
  then show ?thesis using assms(2) by (rule f32_round_mono_pos)
qed


lemma f32_round_of_nat:
  assumes "n < 2 ^ 24"
  shows "f32_round (of_nat n) = of_nat n"
proof (cases "n = 0")
  case True
  then show ?thesis by (simp add: f32_round_0)
next
  case False
  let ?x = "of_nat n :: rat"
  from False have x: "0 < ?x" by simp
  have "?x < of_nat (2 ^ 24)" using assms by (simp only: of_nat_less_iff)
  then have "?x < pow2 24" by (simp add: pow2_def)
  with ilog2_bounds(1) [OF x] have "pow2 (ilog2 ?x) < pow2 24" by simp
  then have e: "ilog2 ?x \<le> 23"
    using pow2_mono [of 24 "ilog2 ?x"] by (cases "24 \<le> ilog2 ?x") simp_all
  let ?k = "nat (23 - ilog2 ?x)"
  let ?u = "pow2 (ilog2 ?x - 23)"
  have "pow2 (23 - ilog2 ?x) * ?u = pow2 0" by (simp add: pow2_add [symmetric])
  then have inv: "pow2 (23 - ilog2 ?x) * ?u = 1" by (simp add: pow2_def)
  have k: "pow2 (23 - ilog2 ?x) = of_int (2 ^ ?k)" using e by (simp add: pow2_def)
  have u: "0 < ?u" by (rule pow2_pos)
  from inv u have "?x / ?u = ?x * pow2 (23 - ilog2 ?x)"
    by (simp add: field_simps)
  also have "\<dots> = of_int (int n * 2 ^ ?k)" by (simp add: k)
  finally have q: "?x / ?u = of_int (int n * 2 ^ ?k)" .
  have "f32_round ?x = of_int (int n * 2 ^ ?k) * ?u"
    by (simp only: f32_round_pos_eq [OF x] q round_half_even_of_int)
  also have "\<dots> = ?x * (pow2 (23 - ilog2 ?x) * ?u)" by (simp add: k)
  also have "\<dots> = ?x" by (simp only: inv mult_1_right)
  finally show ?thesis .
qed

lemma unat_u16_less: "unat (w :: u16) < 2 ^ 24"
proof -
  have "unat w < 2 ^ LENGTH(16)" by (rule unsigned_less)
  then show ?thesis by simp
qed

lemma f32_of_nat_u16: "f32_of_nat (unat (w :: u16)) = of_nat (unat w)"
  unfolding f32_of_nat_def by (rule f32_round_of_nat [OF unat_u16_less])


lemma f32_div_nat_mono:
  "m \<le> n \<Longrightarrow> 0 < c \<Longrightarrow> f32_div (of_nat m) c \<le> f32_div (of_nat n) c"
  unfolding f32_div_def by (rule f32_round_mono) (simp_all add: divide_right_mono)

lemma round_half_even_error: "\<bar>of_int (round_half_even q) - q\<bar> \<le> 1 / 2"
proof -
  have "of_int \<lfloor>q\<rfloor> \<le> q" "q < of_int \<lfloor>q\<rfloor> + 1" by linarith+
  then show ?thesis
    by (auto simp add: round_half_even_def Let_def abs_le_iff)
qed

lemma f32_round_error:
  assumes "0 \<le> x"
  shows "\<bar>f32_round x - x\<bar> \<le> x / 2 ^ 24"
proof (cases "x = 0")
  case True
  then show ?thesis by (simp add: f32_round_0)
next
  case False
  with assms have x: "0 < x" by simp
  let ?u = "pow2 (ilog2 x - 23)"
  let ?n = "of_int (round_half_even (x / ?u)) :: rat"
  have u: "0 < ?u" by (rule pow2_pos)
  have e: "pow2 (ilog2 x) = 2 ^ 23 * ?u"
    using pow2_split(1) [of "ilog2 x"] unfolding pow2_23 by simp
  from u have "f32_round x - x = (?n - x / ?u) * ?u"
    by (simp add: f32_round_pos_eq [OF x] field_simps)
  then have "\<bar>f32_round x - x\<bar> = \<bar>?n - x / ?u\<bar> * ?u"
    using u by (simp add: abs_mult)
  also have "\<dots> \<le> 1 / 2 * ?u"
    using round_half_even_error [of "x / ?u"] u by (simp only: mult_le_cancel_right_pos)
  also have "\<dots> = pow2 (ilog2 x) / 2 ^ 24"
    unfolding e by simp
  also have "\<dots> \<le> x / 2 ^ 24"
    using ilog2_bounds(1) [OF x] by (simp add: divide_right_mono)
  finally show ?thesis .
qed

text \<open>The big-endian value of two bytes.\<close>

lemma unat_u8_less: "unat (b :: u8) < 256"
proof -
  have "unat b < 2 ^ LENGTH(8)" by (rule unsigned_less)
  then show ?thesis by simp
qed

lemma u16be_unat: "unat (u16be p0 p1) = 256 * unat p0 + unat p1"
proof -
  have a: "unat p0 < 256" and b: "unat p1 < 256" by (rule unat_u8_less)+
  have l: "unat (ucast p1 :: u16) = unat p1"
    using b by (simp add: unsigned_ucast_eq take_bit_nat_eq_self)
  have "unat (ucast p0 :: u16) = unat p0"
    using a by (simp add: unsigned_ucast_eq take_bit_nat_eq_self)
  then have "unat (push_bit 8 (ucast p0 :: u16)) = take_bit 16 (push_bit 8 (unat p0))"
    by (simp add: unsigned_push_bit_eq)
  also have "\<dots> = push_bit 8 (unat p0)"
    using a by (simp add: take_bit_nat_eq_self push_bit_eq_mult)
  finally have h: "unat (push_bit 8 (ucast p0 :: u16)) = push_bit 8 (unat p0)" .
  have t: "take_bit 8 (unat p1) = unat p1"
    using b by (simp add: take_bit_nat_eq_self)
  have "push_bit 8 (unat p0) AND take_bit 8 (unat p1) = 0"
    by (simp add: bit_eq_iff bit_simps)
  then have "push_bit 8 (unat p0) AND unat p1 = 0" by (simp only: t)
  then have "push_bit 8 (unat p0) + unat p1 = push_bit 8 (unat p0) OR unat p1"
    by (rule disjunctive_add_eq_or)
  then have "push_bit 8 (unat p0) OR unat p1 = 256 * unat p0 + unat p1"
    by (simp add: push_bit_eq_mult)
  then show ?thesis
    by (simp add: u16be_def unsigned_or_eq h l)
qed

text \<open>Range tests on a quotient of a raw value, as tests on the raw value.\<close>

lemma f32_div_le_iff:
  assumes "0 < c" and "f32_div (of_nat k) c \<le> t" and "t < f32_div (of_nat (Suc k)) c"
  shows "f32_div (of_nat n) c \<le> t \<longleftrightarrow> n \<le> k"
proof
  assume le: "f32_div (of_nat n) c \<le> t"
  show "n \<le> k"
  proof (rule ccontr)
    assume "\<not> n \<le> k"
    then have "Suc k \<le> n" by simp
    then have "f32_div (of_nat (Suc k)) c \<le> f32_div (of_nat n) c"
      using assms(1) by (rule f32_div_nat_mono)
    with assms(3) le show False by simp
  qed
next
  assume "n \<le> k"
  then have "f32_div (of_nat n) c \<le> f32_div (of_nat k) c"
    using assms(1) by (rule f32_div_nat_mono)
  with assms(2) show "f32_div (of_nat n) c \<le> t" by simp
qed

lemma f32_div_ge_iff:
  assumes "0 < c" and "f32_div (of_nat k) c < t" and "t \<le> f32_div (of_nat (Suc k)) c"
  shows "t \<le> f32_div (of_nat n) c \<longleftrightarrow> Suc k \<le> n"
proof
  assume ge: "t \<le> f32_div (of_nat n) c"
  show "Suc k \<le> n"
  proof (rule ccontr)
    assume "\<not> Suc k \<le> n"
    then have "n \<le> k" by simp
    then have "f32_div (of_nat n) c \<le> f32_div (of_nat k) c"
      using assms(1) by (rule f32_div_nat_mono)
    with assms(2) ge show False by simp
  qed
next
  assume "Suc k \<le> n"
  then have "f32_div (of_nat (Suc k)) c \<le> f32_div (of_nat n) c"
    using assms(1) by (rule f32_div_nat_mono)
  with assms(3) show "t \<le> f32_div (of_nat n) c" by simp
qed

lemma f32_voltage_bounds:
  "f32_div 14999 100 < 150" "f32_div 15000 100 = 150"
  "f32_div 28000 100 = 280" "280 < f32_div 28001 100"
  unfolding f32_div_def by code_simp+

lemma f32_current_bounds:
  "f32_div 16 164 < lit_0_1f" "lit_0_1f < f32_div 17 164"
  "f32_div 6560 164 = 40" "40 < f32_div 6561 164" "1 / 10 < lit_0_1f"
  unfolding f32_div_def lit_0_1f_def by code_simp+

lemma voltage_of_nat: "voltage_of f = f32_div (of_nat (unat (u16be (d0 (data f)) (d1 (data f))))) 100"
  by (simp only: voltage_of_def f32_of_nat_u16)

lemma current_of_nat: "current_of f = f32_div (of_nat (unat (u16be (d0 (data f)) (d1 (data f))))) 164"
  by (simp only: current_of_def f32_of_nat_u16)

lemma voltage_accept_iff:
  "150 \<le> voltage_of f \<and> voltage_of f \<le> 280 \<longleftrightarrow>
     15000 \<le> unat (u16be (d0 (data f)) (d1 (data f))) \<and>
     unat (u16be (d0 (data f)) (d1 (data f))) \<le> 28000"
  using f32_div_ge_iff [of 100 14999 150 "unat (u16be (d0 (data f)) (d1 (data f)))"]
    f32_div_le_iff [of 100 28000 280 "unat (u16be (d0 (data f)) (d1 (data f)))"]
  unfolding voltage_of_nat by (simp add: f32_voltage_bounds)

lemma current_accept_iff:
  "lit_0_1f \<le> current_of f \<and> current_of f \<le> 40 \<longleftrightarrow>
     17 \<le> unat (u16be (d0 (data f)) (d1 (data f))) \<and>
     unat (u16be (d0 (data f)) (d1 (data f))) \<le> 6560"
  using f32_div_ge_iff [of 164 16 lit_0_1f "unat (u16be (d0 (data f)) (d1 (data f)))"]
    f32_div_le_iff [of 164 6560 40 "unat (u16be (d0 (data f)) (d1 (data f)))"]
  unfolding current_of_nat by (simp add: f32_current_bounds less_imp_le)

lemma current_accepted_gt:
  assumes "lit_0_1f \<le> current_of f"
  shows "lit_0_1f < current_of f"
proof -
  from assms have "17 \<le> unat (u16be (d0 (data f)) (d1 (data f)))"
    using f32_div_ge_iff [of 164 16 lit_0_1f "unat (u16be (d0 (data f)) (d1 (data f)))"]
    unfolding current_of_nat by (simp add: f32_current_bounds less_imp_le)
  then have "f32_div (of_nat 17) 164 \<le> current_of f"
    unfolding current_of_nat by (rule f32_div_nat_mono) simp
  with f32_current_bounds(2) show ?thesis by simp
qed

section \<open>Effect of each case\<close>

text \<open>
  For each case of the two handlers: the fields and logs it leaves alone, and what it does
  to the ones it owns.
\<close>

lemma case_0x266_keeps:
  "m_ac_voltage (case_0x266 f s) = m_ac_voltage s"
  "m_ac_current (case_0x266 f s) = m_ac_current s"
  "m_pack_capacity_kwh (case_0x266 f s) = m_pack_capacity_kwh s"
  "m_poll_state (case_0x266 f s) = m_poll_state s"
  "ms_v_env_on (case_0x266 f s) = ms_v_env_on s"
  "ms_v_bat_soh (case_0x266 f s) = ms_v_bat_soh s"
  "ms_v_bat_capacity (case_0x266 f s) = ms_v_bat_capacity s"
  "writes_of Ms_v_charge_power (case_0x266 f s) = writes_of Ms_v_charge_power s"
  "writes_of Ms_v_bat_capacity (case_0x266 f s) = writes_of Ms_v_bat_capacity s"
  by (simp_all add: case_0x266_def Let_def publish_def PollSetState_def writes_of_def)

lemma case_0x281_keeps:
  "m_ac_voltage (case_0x281 f s) = m_ac_voltage s"
  "m_ac_current (case_0x281 f s) = m_ac_current s"
  "m_pack_capacity_kwh (case_0x281 f s) = m_pack_capacity_kwh s"
  "m_poll_state (case_0x281 f s) = m_poll_state s"
  "ms_v_env_on (case_0x281 f s) = ms_v_env_on s"
  "ms_v_bat_soh (case_0x281 f s) = ms_v_bat_soh s"
  "ms_v_bat_capacity (case_0x281 f s) = ms_v_bat_capacity s"
  "writes_of Ms_v_charge_power (case_0x281 f s) = writes_of Ms_v_charge_power s"
  "writes_of Ms_v_bat_capacity (case_0x281 f s) = writes_of Ms_v_bat_capacity s"
  by (simp_all add: case_0x281_def Let_def publish_def PollSetState_def writes_of_def)

lemma case_0x362_keeps:
  "m_ac_current (case_0x362 f s) = m_ac_current s"
  "m_pack_capacity_kwh (case_0x362 f s) = m_pack_capacity_kwh s"
  "m_poll_state (case_0x362 f s) = m_poll_state s"
  "ms_v_env_on (case_0x362 f s) = ms_v_env_on s"
  "ms_v_bat_soh (case_0x362 f s) = ms_v_bat_soh s"
  "ms_v_bat_capacity (case_0x362 f s) = ms_v_bat_capacity s"
  "writes_of Ms_v_bat_capacity (case_0x362 f s) = writes_of Ms_v_bat_capacity s"
  by (simp_all add: case_0x362_def Let_def publish_def PollSetState_def writes_of_def)

lemma case_0x373_keeps:
  "m_ac_voltage (case_0x373 f s) = m_ac_voltage s"
  "m_pack_capacity_kwh (case_0x373 f s) = m_pack_capacity_kwh s"
  "m_poll_state (case_0x373 f s) = m_poll_state s"
  "ms_v_env_on (case_0x373 f s) = ms_v_env_on s"
  "ms_v_bat_soh (case_0x373 f s) = ms_v_bat_soh s"
  "ms_v_bat_capacity (case_0x373 f s) = ms_v_bat_capacity s"
  "writes_of Ms_v_bat_capacity (case_0x373 f s) = writes_of Ms_v_bat_capacity s"
  by (simp_all add: case_0x373_def Let_def publish_def PollSetState_def writes_of_def)

lemma case_0x510_keeps:
  "m_ac_voltage (case_0x510 f s) = m_ac_voltage s"
  "m_ac_current (case_0x510 f s) = m_ac_current s"
  "m_pack_capacity_kwh (case_0x510 f s) = m_pack_capacity_kwh s"
  "m_poll_state (case_0x510 f s) = m_poll_state s"
  "ms_v_env_on (case_0x510 f s) = ms_v_env_on s"
  "ms_v_bat_soh (case_0x510 f s) = ms_v_bat_soh s"
  "ms_v_bat_capacity (case_0x510 f s) = ms_v_bat_capacity s"
  "writes_of Ms_v_charge_power (case_0x510 f s) = writes_of Ms_v_charge_power s"
  "writes_of Ms_v_bat_capacity (case_0x510 f s) = writes_of Ms_v_bat_capacity s"
  by (simp_all add: case_0x510_def Let_def publish_def PollSetState_def writes_of_def)

lemma case_0x540_keeps:
  "m_ac_voltage (case_0x540 f s) = m_ac_voltage s"
  "m_ac_current (case_0x540 f s) = m_ac_current s"
  "m_pack_capacity_kwh (case_0x540 f s) = m_pack_capacity_kwh s"
  "m_poll_state (case_0x540 f s) = m_poll_state s"
  "ms_v_env_on (case_0x540 f s) = ms_v_env_on s"
  "ms_v_bat_soh (case_0x540 f s) = ms_v_bat_soh s"
  "ms_v_bat_capacity (case_0x540 f s) = ms_v_bat_capacity s"
  "writes_of Ms_v_charge_power (case_0x540 f s) = writes_of Ms_v_charge_power s"
  "writes_of Ms_v_bat_capacity (case_0x540 f s) = writes_of Ms_v_bat_capacity s"
  by (simp_all add: case_0x540_def Let_def publish_def PollSetState_def writes_of_def)

lemma case_0xF190_keeps:
  "m_ac_voltage (case_0xF190 dat s) = m_ac_voltage s"
  "m_ac_current (case_0xF190 dat s) = m_ac_current s"
  "m_pack_capacity_kwh (case_0xF190 dat s) = m_pack_capacity_kwh s"
  "m_poll_state (case_0xF190 dat s) = m_poll_state s"
  "ms_v_env_on (case_0xF190 dat s) = ms_v_env_on s"
  "ms_v_bat_soh (case_0xF190 dat s) = ms_v_bat_soh s"
  "ms_v_bat_capacity (case_0xF190 dat s) = ms_v_bat_capacity s"
  "writes_of Ms_v_charge_power (case_0xF190 dat s) = writes_of Ms_v_charge_power s"
  "writes_of Ms_v_bat_capacity (case_0xF190 dat s) = writes_of Ms_v_bat_capacity s"
  by (simp_all add: case_0xF190_def Let_def publish_def PollSetState_def writes_of_def)

lemma case_0xE002_keeps:
  "m_ac_voltage (case_0xE002 dat s) = m_ac_voltage s"
  "m_ac_current (case_0xE002 dat s) = m_ac_current s"
  "m_pack_capacity_kwh (case_0xE002 dat s) = m_pack_capacity_kwh s"
  "m_poll_state (case_0xE002 dat s) = m_poll_state s"
  "ms_v_env_on (case_0xE002 dat s) = ms_v_env_on s"
  "ms_v_bat_soh (case_0xE002 dat s) = ms_v_bat_soh s"
  "ms_v_bat_capacity (case_0xE002 dat s) = ms_v_bat_capacity s"
  "writes_of Ms_v_charge_power (case_0xE002 dat s) = writes_of Ms_v_charge_power s"
  "writes_of Ms_v_bat_capacity (case_0xE002 dat s) = writes_of Ms_v_bat_capacity s"
  by (simp_all add: case_0xE002_def Let_def publish_def PollSetState_def writes_of_def)

lemma case_0xE003_keeps:
  "m_ac_voltage (case_0xE003 dat s) = m_ac_voltage s"
  "m_ac_current (case_0xE003 dat s) = m_ac_current s"
  "m_pack_capacity_kwh (case_0xE003 dat s) = m_pack_capacity_kwh s"
  "m_poll_state (case_0xE003 dat s) = m_poll_state s"
  "ms_v_env_on (case_0xE003 dat s) = ms_v_env_on s"
  "writes_of Ms_v_charge_power (case_0xE003 dat s) = writes_of Ms_v_charge_power s"
  by (simp_all add: case_0xE003_def Let_def publish_def PollSetState_def writes_of_def)

lemma case_0xE004_keeps:
  "m_ac_voltage (case_0xE004 dat s) = m_ac_voltage s"
  "m_ac_current (case_0xE004 dat s) = m_ac_current s"
  "m_pack_capacity_kwh (case_0xE004 dat s) = m_pack_capacity_kwh s"
  "ms_v_bat_soh (case_0xE004 dat s) = ms_v_bat_soh s"
  "ms_v_bat_capacity (case_0xE004 dat s) = ms_v_bat_capacity s"
  "writes_of Ms_v_charge_power (case_0xE004 dat s) = writes_of Ms_v_charge_power s"
  "writes_of Ms_v_bat_capacity (case_0xE004 dat s) = writes_of Ms_v_bat_capacity s"
  by (simp_all add: case_0xE004_def Let_def publish_def PollSetState_def writes_of_def)

lemma case_0xE009_keeps:
  "m_ac_voltage (case_0xE009 dat s) = m_ac_voltage s"
  "m_ac_current (case_0xE009 dat s) = m_ac_current s"
  "m_pack_capacity_kwh (case_0xE009 dat s) = m_pack_capacity_kwh s"
  "m_poll_state (case_0xE009 dat s) = m_poll_state s"
  "ms_v_env_on (case_0xE009 dat s) = ms_v_env_on s"
  "ms_v_bat_soh (case_0xE009 dat s) = ms_v_bat_soh s"
  "ms_v_bat_capacity (case_0xE009 dat s) = ms_v_bat_capacity s"
  "writes_of Ms_v_charge_power (case_0xE009 dat s) = writes_of Ms_v_charge_power s"
  "writes_of Ms_v_bat_capacity (case_0xE009 dat s) = writes_of Ms_v_bat_capacity s"
  by (simp_all add: case_0xE009_def Let_def publish_def PollSetState_def writes_of_def)

lemma case_0xE010_keeps:
  "m_ac_voltage (case_0xE010 dat s) = m_ac_voltage s"
  "m_ac_current (case_0xE010 dat s) = m_ac_current s"
  "m_pack_capacity_kwh (case_0xE010 dat s) = m_pack_capacity_kwh s"
  "m_poll_state (case_0xE010 dat s) = m_poll_state s"
  "ms_v_env_on (case_0xE010 dat s) = ms_v_env_on s"
  "ms_v_bat_soh (case_0xE010 dat s) = ms_v_bat_soh s"
  "ms_v_bat_capacity (case_0xE010 dat s) = ms_v_bat_capacity s"
  "writes_of Ms_v_charge_power (case_0xE010 dat s) = writes_of Ms_v_charge_power s"
  "writes_of Ms_v_bat_capacity (case_0xE010 dat s) = writes_of Ms_v_bat_capacity s"
  by (simp_all add: case_0xE010_def Let_def publish_def PollSetState_def writes_of_def)

lemma case_0xE025_keeps:
  "m_ac_voltage (case_0xE025 dat s) = m_ac_voltage s"
  "m_ac_current (case_0xE025 dat s) = m_ac_current s"
  "m_pack_capacity_kwh (case_0xE025 dat s) = m_pack_capacity_kwh s"
  "m_poll_state (case_0xE025 dat s) = m_poll_state s"
  "ms_v_env_on (case_0xE025 dat s) = ms_v_env_on s"
  "ms_v_bat_soh (case_0xE025 dat s) = ms_v_bat_soh s"
  "ms_v_bat_capacity (case_0xE025 dat s) = ms_v_bat_capacity s"
  "writes_of Ms_v_charge_power (case_0xE025 dat s) = writes_of Ms_v_charge_power s"
  "writes_of Ms_v_bat_capacity (case_0xE025 dat s) = writes_of Ms_v_bat_capacity s"
  by (simp_all add: case_0xE025_def Let_def publish_def PollSetState_def writes_of_def)

lemma case_0x362_effect:
  "m_ac_voltage (case_0x362 f s) =
     (if 150 \<le> voltage_of f \<and> voltage_of f \<le> 280 then voltage_of f else m_ac_voltage s)"
  "writes_of Ms_v_charge_power (case_0x362 f s) =
     writes_of Ms_v_charge_power s @
     (if 150 \<le> voltage_of f \<and> voltage_of f \<le> 280 \<and> lit_0_1f < m_ac_current s
      then [MFloat (power_kw (voltage_of f) (m_ac_current s))] else [])"
  by (simp_all add: case_0x362_def Let_def publish_def writes_of_def voltage_of_def power_kw_def)

lemma case_0x373_effect:
  "m_ac_current (case_0x373 f s) =
     (if lit_0_1f \<le> current_of f \<and> current_of f \<le> 40 then current_of f else m_ac_current s)"
  "writes_of Ms_v_charge_power (case_0x373 f s) =
     writes_of Ms_v_charge_power s @
     (if lit_0_1f \<le> current_of f \<and> current_of f \<le> 40 \<and> 10 < m_ac_voltage s
      then [MFloat (power_kw (m_ac_voltage s) (current_of f))] else [])"
  by (simp_all add: case_0x373_def Let_def publish_def writes_of_def current_of_def power_kw_def)

lemma case_0xE003_effect:
  "ms_v_bat_soh (case_0xE003 dat s) =
     (if soh_accepted dat then soh_of dat else ms_v_bat_soh s)"
  "ms_v_bat_capacity (case_0xE003 dat s) =
     (if soh_accepted dat \<and> ms_v_bat_soh s \<noteq> soh_of dat
      then f32_mul (m_pack_capacity_kwh s) (f32_div (soh_of dat) 100)
      else ms_v_bat_capacity s)"
  "writes_of Ms_v_bat_capacity (case_0xE003 dat s) =
     writes_of Ms_v_bat_capacity s @
     (if soh_accepted dat \<and> ms_v_bat_soh s \<noteq> soh_of dat
      then [MFloat (f32_mul (m_pack_capacity_kwh s) (f32_div (soh_of dat) 100))] else [])"
  by (auto simp add: case_0xE003_def Let_def publish_def writes_of_def soh_accepted_def
      soh_of_def soh_raw_def)

lemma case_0xE004_effect:
  "ms_v_env_on (case_0xE004 dat s) = (if 2 \<le> length dat then ready_of dat else ms_v_env_on s)"
  "m_poll_state (case_0xE004 dat s) =
     (if 2 \<le> length dat \<and> ready_of dat \<noteq> ms_v_env_on s
      then (if \<not> ready_of dat \<and> m_poll_state s \<noteq> 0 then 0
            else if ready_of dat \<and> m_poll_state s = 0 then 1
            else m_poll_state s)
      else m_poll_state s)"
  by (simp_all add: case_0xE004_def Let_def publish_def PollSetState_def ready_of_def)

lemmas frame_keeps = case_0x266_keeps case_0x281_keeps case_0x362_keeps case_0x373_keeps
  case_0x510_keeps case_0x540_keeps

lemmas reply_keeps = case_0xF190_keeps case_0xE002_keeps case_0xE003_keeps case_0xE004_keeps
  case_0xE009_keeps case_0xE010_keeps case_0xE025_keeps

section \<open>Effect of one event\<close>

lemma IncomingPollReply_keeps_ac:
  "m_ac_voltage (IncomingPollReply pid dat s) = m_ac_voltage s"
  "m_ac_current (IncomingPollReply pid dat s) = m_ac_current s"
  "writes_of Ms_v_charge_power (IncomingPollReply pid dat s) = writes_of Ms_v_charge_power s"
  "m_pack_capacity_kwh (IncomingPollReply pid dat s) = m_pack_capacity_kwh s"
  by (simp_all add: IncomingPollReply_def reply_keeps)

lemma IncomingFrameCan1_keeps:
  "m_pack_capacity_kwh (IncomingFrameCan1 f s) = m_pack_capacity_kwh s"
  "m_poll_state (IncomingFrameCan1 f s) = m_poll_state s"
  "ms_v_env_on (IncomingFrameCan1 f s) = ms_v_env_on s"
  "ms_v_bat_soh (IncomingFrameCan1 f s) = ms_v_bat_soh s"
  "ms_v_bat_capacity (IncomingFrameCan1 f s) = ms_v_bat_capacity s"
  "writes_of Ms_v_bat_capacity (IncomingFrameCan1 f s) = writes_of Ms_v_bat_capacity s"
  by (simp_all add: IncomingFrameCan1_def frame_keeps)

lemma IncomingFrameCan1_ac_voltage:
  "m_ac_voltage (IncomingFrameCan1 f s) =
     (if origin f = m_can1 \<and> MsgID f = 0x362 \<and> 150 \<le> voltage_of f \<and> voltage_of f \<le> 280
      then voltage_of f else m_ac_voltage s)"
  by (simp add: IncomingFrameCan1_def frame_keeps case_0x362_effect)

lemma IncomingFrameCan1_ac_current:
  "m_ac_current (IncomingFrameCan1 f s) =
     (if origin f = m_can1 \<and> MsgID f = 0x373 \<and> lit_0_1f \<le> current_of f \<and> current_of f \<le> 40
      then current_of f else m_ac_current s)"
  by (simp add: IncomingFrameCan1_def frame_keeps case_0x373_effect)

lemma IncomingFrameCan1_power:
  "writes_of Ms_v_charge_power (IncomingFrameCan1 f s) =
     writes_of Ms_v_charge_power s @
     (if origin f = m_can1 \<and> MsgID f = 0x362 \<and> 150 \<le> voltage_of f \<and> voltage_of f \<le> 280
         \<and> lit_0_1f < m_ac_current s
      then [MFloat (power_kw (voltage_of f) (m_ac_current s))]
      else if origin f = m_can1 \<and> MsgID f = 0x373 \<and> lit_0_1f \<le> current_of f
         \<and> current_of f \<le> 40 \<and> 10 < m_ac_voltage s
      then [MFloat (power_kw (m_ac_voltage s) (current_of f))]
      else [])"
  by (simp add: IncomingFrameCan1_def frame_keeps case_0x362_effect case_0x373_effect)

lemma handle_ac_voltage:
  "m_ac_voltage (handle e s) = (if accepted_voltage e then voltage_sample e else m_ac_voltage s)"
  by (cases e) (simp_all add: IncomingFrameCan1_ac_voltage IncomingPollReply_keeps_ac)

lemma handle_ac_current:
  "m_ac_current (handle e s) = (if accepted_current e then current_sample e else m_ac_current s)"
  by (cases e) (simp_all add: IncomingFrameCan1_ac_current IncomingPollReply_keeps_ac)

lemma handle_power:
  "writes_of Ms_v_charge_power (handle e s) =
     writes_of Ms_v_charge_power s @
     (if accepted_voltage e \<and> lit_0_1f < m_ac_current s \<or>
         accepted_current e \<and> 10 < m_ac_voltage s
      then [MFloat (power_kw (m_ac_voltage (handle e s)) (m_ac_current (handle e s)))]
      else [])"
proof (cases e)
  case (Frame f)
  show ?thesis
    unfolding Frame handle.simps IncomingFrameCan1_power IncomingFrameCan1_ac_voltage
      IncomingFrameCan1_ac_current accepted_voltage.simps accepted_current.simps
    by auto
next
  case (PollReply pid dat)
  then show ?thesis by (simp add: IncomingPollReply_keeps_ac)
qed

lemma handle_pack_capacity: "m_pack_capacity_kwh (handle e s) = m_pack_capacity_kwh s"
  by (cases e) (simp_all add: IncomingFrameCan1_keeps IncomingPollReply_keeps_ac)

lemma IncomingPollReply_capacity:
  "writes_of Ms_v_bat_capacity (IncomingPollReply pid dat s) =
     writes_of Ms_v_bat_capacity s @
     (if pid = 0xE003 \<and> soh_accepted dat \<and> ms_v_bat_soh s \<noteq> soh_of dat
      then [MFloat (f32_mul (m_pack_capacity_kwh s) (f32_div (soh_of dat) 100))] else [])"
  "ms_v_bat_capacity (IncomingPollReply pid dat s) =
     (if pid = 0xE003 \<and> soh_accepted dat \<and> ms_v_bat_soh s \<noteq> soh_of dat
      then f32_mul (m_pack_capacity_kwh s) (f32_div (soh_of dat) 100)
      else ms_v_bat_capacity s)"
  "ms_v_bat_soh (IncomingPollReply pid dat s) =
     (if pid = 0xE003 \<and> soh_accepted dat then soh_of dat else ms_v_bat_soh s)"
  by (simp_all add: IncomingPollReply_def reply_keeps case_0xE003_effect)

lemma handle_capacity:
  "writes_of Ms_v_bat_capacity (handle e s) =
     writes_of Ms_v_bat_capacity s @
     (if soh_update e s
      then [MFloat (f32_mul (m_pack_capacity_kwh s) (f32_div (soh_sample e) 100))] else [])"
  "ms_v_bat_capacity (handle e s) =
     (if soh_update e s then f32_mul (m_pack_capacity_kwh s) (f32_div (soh_sample e) 100)
      else ms_v_bat_capacity s)"
  by (cases e; simp add: IncomingFrameCan1_keeps IncomingPollReply_capacity)+

lemma IncomingPollReply_poll_state:
  "ms_v_env_on (IncomingPollReply pid dat s) =
     (if pid = 0xE004 \<and> 2 \<le> length dat then ready_of dat else ms_v_env_on s)"
  "m_poll_state (IncomingPollReply pid dat s) =
     (if pid = 0xE004 \<and> 2 \<le> length dat \<and> ready_of dat \<noteq> ms_v_env_on s
      then (if \<not> ready_of dat \<and> m_poll_state s \<noteq> 0 then 0
            else if ready_of dat \<and> m_poll_state s = 0 then 1
            else m_poll_state s)
      else m_poll_state s)"
  by (simp_all add: IncomingPollReply_def reply_keeps case_0xE004_effect)

section \<open>Invariants of runs\<close>

lemma constructed:
  "m_ac_voltage (OvmsVehicleMaxt90 s0) = 0"
  "m_ac_current (OvmsVehicleMaxt90 s0) = 0"
  "m_poll_state (OvmsVehicleMaxt90 s0) = 0"
  "m_pack_capacity_kwh (OvmsVehicleMaxt90 s0) = 177 / 2"
  "ms_v_bat_capacity (OvmsVehicleMaxt90 s0) = 177 / 2"
  "published (OvmsVehicleMaxt90 s0) = [(Ms_v_bat_capacity, MFloat (177 / 2))]"
  "ms_v_env_on (OvmsVehicleMaxt90 s0) = ms_v_env_on s0"
  "ms_v_bat_soh (OvmsVehicleMaxt90 s0) = ms_v_bat_soh s0"
  "last_state (OvmsVehicleMaxt90 s0) = last_state s0"
  by (simp_all add: OvmsVehicleMaxt90_def Let_def publish_def PollSetState_def)

lemma constructed_fresh:
  "OvmsVehicleMaxt90 fresh_store =
     \<lparr> m_ac_voltage = 0, m_ac_current = 0, last_state = 0, m_poll_state = 0,
       m_pack_capacity_kwh = 177 / 2, m_hvac_temp_c = 0,
       ms_v_env_handbrake = False, ms_v_env_locked = False,
       ms_v_charge_voltage = 0, ms_v_charge_current = 0, ms_v_charge_power = 0,
       ms_v_pos_odometer = 0, ms_v_vin = [], ms_v_bat_soc = 0, ms_v_bat_soh = 0,
       ms_v_bat_capacity = 177 / 2, ms_v_env_on = False, ms_v_charge_pilot = False,
       ms_v_env_temp = 0,
       published = [(Ms_v_bat_capacity, MFloat (177 / 2))] \<rparr>"
  by (simp add: OvmsVehicleMaxt90_def fresh_store_def Let_def publish_def PollSetState_def)

lemma run_Nil: "run s0 [] = OvmsVehicleMaxt90 s0"
  by (simp add: run_def)

lemma run_snoc: "run s0 (evs @ [e]) = handle e (run s0 evs)"
  by (simp add: run_def)

lemma run_pack_capacity: "m_pack_capacity_kwh (run s0 evs) = 177 / 2"
  by (induction evs rule: rev_induct)
     (simp_all add: run_Nil run_snoc handle_pack_capacity constructed)

lemma handle_poll_inv: "poll_inv s \<Longrightarrow> poll_inv (handle e s)"
  by (cases e) (auto simp add: poll_inv_def IncomingFrameCan1_keeps IncomingPollReply_poll_state)

lemma run_poll_inv: "\<not> ms_v_env_on s0 \<Longrightarrow> poll_inv (run s0 evs)"
proof (induction evs rule: rev_induct)
  case Nil
  then show ?case by (simp add: run_Nil poll_inv_def constructed)
next
  case (snoc e evs)
  then show ?case by (simp add: run_snoc handle_poll_inv)
qed

lemma run_ac_voltage: "m_ac_voltage (run s0 evs) = latest_voltage evs"
proof (induction evs rule: rev_induct)
  case Nil
  show ?case by (simp add: run_Nil latest_voltage_def constructed)
next
  case (snoc e evs)
  then show ?case by (simp add: run_snoc handle_ac_voltage latest_voltage_def)
qed

lemma run_ac_current: "m_ac_current (run s0 evs) = latest_current evs"
proof (induction evs rule: rev_induct)
  case Nil
  show ?case by (simp add: run_Nil latest_current_def constructed)
next
  case (snoc e evs)
  then show ?case by (simp add: run_snoc handle_ac_current latest_current_def)
qed

lemma lit_0_1f_pos: "0 < lit_0_1f"
  by code_simp

lemma accepted_voltage_pos: "accepted_voltage e \<Longrightarrow> 0 < voltage_sample e"
  by (cases e) auto

lemma accepted_current_pos: "accepted_current e \<Longrightarrow> 0 < current_sample e"
  using lit_0_1f_pos by (cases e) auto

lemma last_filter: "filter P xs \<noteq> [] \<Longrightarrow> P (last (filter P xs))"
proof -
  assume "filter P xs \<noteq> []"
  then have "last (filter P xs) \<in> set (filter P xs)" by (rule last_in_set)
  then show ?thesis by simp
qed

lemma latest_voltage_zero: "latest_voltage evs = 0 \<longleftrightarrow> filter accepted_voltage evs = []"
  using accepted_voltage_pos [of "last (filter accepted_voltage evs)"] last_filter [of accepted_voltage evs]
  by (auto simp add: latest_voltage_def)

lemma latest_current_zero: "latest_current evs = 0 \<longleftrightarrow> filter accepted_current evs = []"
  using accepted_current_pos [of "last (filter accepted_current evs)"] last_filter [of accepted_current evs]
  by (auto simp add: latest_current_def)

lemma run_power_history:
  "writes_of Ms_v_charge_power (run s0 evs) \<noteq> [] \<Longrightarrow>
     filter accepted_voltage evs \<noteq> [] \<and> filter accepted_current evs \<noteq> []"
proof (induction evs rule: rev_induct)
  case Nil
  then show ?case by (simp add: run_Nil writes_of_def constructed)
next
  case (snoc e evs)
  show ?case
  proof (cases "writes_of Ms_v_charge_power (run s0 evs) = []")
    case False
    with snoc.IH show ?thesis by simp
  next
    case True
    with snoc.prems have c: "accepted_voltage e \<and> lit_0_1f < m_ac_current (run s0 evs) \<or>
         accepted_current e \<and> 10 < m_ac_voltage (run s0 evs)"
      by (simp add: run_snoc handle_power split: if_splits)
    then show ?thesis
    proof
      assume a: "accepted_voltage e \<and> lit_0_1f < m_ac_current (run s0 evs)"
      with lit_0_1f_pos have "latest_current evs \<noteq> 0" by (simp add: run_ac_current)
      then have "filter accepted_current evs \<noteq> []" by (simp add: latest_current_zero)
      with a show ?thesis by simp
    next
      assume a: "accepted_current e \<and> 10 < m_ac_voltage (run s0 evs)"
      then have "latest_voltage evs \<noteq> 0" by (simp add: run_ac_voltage)
      then have "filter accepted_voltage evs \<noteq> []" by (simp add: latest_voltage_zero)
      with a show ?thesis by simp
    qed
  qed
qed

section \<open>Evaluation of the example inputs\<close>

text \<open>From here on the acceptance predicates are unfolded only where a proof asks for it.\<close>

declare accepted_voltage.simps [simp del] accepted_current.simps [simp del]

lemma u16be_5848: "u16be 0x58 0x48 = 22600"
  by (simp add: u16be_def)

lemma u16be_0954: "u16be 0x09 0x54 = 2388"
  by (simp add: u16be_def)

lemma f32_226: "f32_div (f32_of_nat 22600) 100 = 226"
  unfolding f32_div_def f32_of_nat_def of_nat_numeral by code_simp

lemma f32_14A: "f32_div (f32_of_nat 2388) 164 = 7634145 / 524288"
  unfolding f32_div_def f32_of_nat_def of_nat_numeral by code_simp

lemma f32_power: "power_kw 226 (7634145 / 524288) = 6901267 / 2097152"
  by code_simp

lemma lit_0_1f_value: "lit_0_1f = 13421773 / 134217728"
  by code_simp

lemma voltage_of_226V: "voltage_of frame_226V = 226"
  by (simp add: voltage_of_def frame_226V_def can1_frame_def u16be_5848 f32_226)

lemma current_of_14A: "current_of frame_14A = 7634145 / 524288"
  by (simp add: current_of_def frame_14A_def can1_frame_def u16be_0954 f32_14A)

lemma accepted_226V: "accepted_voltage (Frame frame_226V)"
  by (simp add: accepted_voltage.simps voltage_of_226V)
     (simp add: frame_226V_def can1_frame_def m_can1_def)

lemma accepted_14A: "accepted_current (Frame frame_14A)"
  by (simp add: accepted_current.simps current_of_14A lit_0_1f_value)
     (simp add: frame_14A_def can1_frame_def m_can1_def)

lemma not_current_226V: "\<not> accepted_current (Frame frame_226V)"
  by (simp add: accepted_current.simps frame_226V_def can1_frame_def)

lemma not_voltage_14A: "\<not> accepted_voltage (Frame frame_14A)"
  by (simp add: accepted_voltage.simps frame_14A_def can1_frame_def)

section \<open>AC line voltage (claim C6)\<close>

lemma IncomingFrameCan1_0x362:
  assumes "origin f = m_can1" and "MsgID f = 0x362"
  shows "IncomingFrameCan1 f s =
           (if 150 \<le> voltage_of f \<and> voltage_of f \<le> 280
            then (if lit_0_1f < m_ac_current s
                  then s\<lparr>m_ac_voltage := voltage_of f, ms_v_charge_voltage := voltage_of f,
                         ms_v_charge_power := power_kw (voltage_of f) (m_ac_current s),
                         published := published s @
                           [(Ms_v_charge_voltage, MFloat (voltage_of f)),
                            (Ms_v_charge_power, MFloat (power_kw (voltage_of f) (m_ac_current s)))]\<rparr>
                  else s\<lparr>m_ac_voltage := voltage_of f, ms_v_charge_voltage := voltage_of f,
                         published := published s @
                           [(Ms_v_charge_voltage, MFloat (voltage_of f))]\<rparr>)
            else s)"
  using assms
  by (simp add: IncomingFrameCan1_def case_0x362_def voltage_of_def power_kw_def Let_def
      publish_def)

lemma voltage_of_error:
  "\<bar>voltage_of f - of_nat (unat (u16be (d0 (data f)) (d1 (data f)))) / 100\<bar>
     \<le> of_nat (unat (u16be (d0 (data f)) (d1 (data f)))) / 100 / 2 ^ 24"
  unfolding voltage_of_nat f32_div_def
  by (rule f32_round_error, rule divide_nonneg_nonneg, rule of_nat_0_le_iff, simp)

text \<open>
  Claim C6. For every AC-voltage frame (id 0x362, on the vehicle bus) the decoded voltage
  is the big-endian 16-bit value of payload bytes 0..1 divided by 100, in single precision
  (within a relative error of \<open>2^-24\<close> of the exact quotient). The frame is accepted
  exactly when the decoded voltage lies in 150..280 V, which is exactly when the raw value
  lies in 15000..28000. If it is accepted, the cached voltage and the charge-voltage
  metric take the value, the write is logged, and the derived power is recomputed from the
  new voltage and the cached current when that exceeds 0.1 A. If it is not, the frame
  changes nothing: neither the cache nor any metric nor the log.
\<close>

theorem ac_voltage_gate:
  assumes "origin f = m_can1" and "MsgID f = 0x362"
  shows "voltage_of f = f32_div (f32_of_nat (unat (u16be (d0 (data f)) (d1 (data f))))) 100 \<and>
         unat (u16be (d0 (data f)) (d1 (data f))) =
           256 * unat (d0 (data f)) + unat (d1 (data f)) \<and>
         \<bar>voltage_of f - of_nat (unat (u16be (d0 (data f)) (d1 (data f)))) / 100\<bar>
           \<le> of_nat (unat (u16be (d0 (data f)) (d1 (data f)))) / 100 / 2 ^ 24 \<and>
         ((150 \<le> voltage_of f \<and> voltage_of f \<le> 280) =
          (15000 \<le> unat (u16be (d0 (data f)) (d1 (data f))) \<and>
           unat (u16be (d0 (data f)) (d1 (data f))) \<le> 28000)) \<and>
         (if 150 \<le> voltage_of f \<and> voltage_of f \<le> 280
          then IncomingFrameCan1 f s =
                 (if lit_0_1f < m_ac_current s
                  then s\<lparr>m_ac_voltage := voltage_of f, ms_v_charge_voltage := voltage_of f,
                         ms_v_charge_power := power_kw (voltage_of f) (m_ac_current s),
                         published := published s @
                           [(Ms_v_charge_voltage, MFloat (voltage_of f)),
                            (Ms_v_charge_power, MFloat (power_kw (voltage_of f) (m_ac_current s)))]\<rparr>
                  else s\<lparr>m_ac_voltage := voltage_of f, ms_v_charge_voltage := voltage_of f,
                         published := published s @
                           [(Ms_v_charge_voltage, MFloat (voltage_of f))]\<rparr>)
          else IncomingFrameCan1 f s = s)"
proof -
  note a = voltage_of_def [of f] u16be_unat [of "d0 (data f)" "d1 (data f)"]
    voltage_of_error [of f] voltage_accept_iff [of f]
  from IncomingFrameCan1_0x362 [OF assms, of s]
  have b: "if 150 \<le> voltage_of f \<and> voltage_of f \<le> 280
          then IncomingFrameCan1 f s =
                 (if lit_0_1f < m_ac_current s
                  then s\<lparr>m_ac_voltage := voltage_of f, ms_v_charge_voltage := voltage_of f,
                         ms_v_charge_power := power_kw (voltage_of f) (m_ac_current s),
                         published := published s @
                           [(Ms_v_charge_voltage, MFloat (voltage_of f)),
                            (Ms_v_charge_power, MFloat (power_kw (voltage_of f) (m_ac_current s)))]\<rparr>
                  else s\<lparr>m_ac_voltage := voltage_of f, ms_v_charge_voltage := voltage_of f,
                         published := published s @
                           [(Ms_v_charge_voltage, MFloat (voltage_of f))]\<rparr>)
          else IncomingFrameCan1 f s = s"
    by (simp split: if_splits)
  from a b show ?thesis by blast
qed

theorem ac_voltage_gate_witness:
  "origin frame_226V = m_can1 \<and> MsgID frame_226V = 0x362 \<and> voltage_of frame_226V = 226 \<and>
   IncomingFrameCan1 frame_226V (OvmsVehicleMaxt90 fresh_store) =
     (OvmsVehicleMaxt90 fresh_store)\<lparr>m_ac_voltage := 226, ms_v_charge_voltage := 226,
       published := [(Ms_v_bat_capacity, MFloat (177 / 2)), (Ms_v_charge_voltage, MFloat 226)]\<rparr>"
proof -
  have o: "origin frame_226V = m_can1" and m: "MsgID frame_226V = 0x362"
    by (simp_all add: frame_226V_def can1_frame_def m_can1_def)
  have c: "\<not> lit_0_1f < m_ac_current (OvmsVehicleMaxt90 fresh_store)"
    by (simp add: constructed_fresh lit_0_1f_value)
  have p: "published (OvmsVehicleMaxt90 fresh_store) = [(Ms_v_bat_capacity, MFloat (177 / 2))]"
    by (simp add: constructed_fresh)
  note t = ac_voltage_gate [OF o m, of "OvmsVehicleMaxt90 fresh_store"]
  from t [THEN conjunct2, THEN conjunct2, THEN conjunct2, THEN conjunct2] o m c p
  show ?thesis
    by (simp add: voltage_of_226V)
qed

section \<open>Lock state (claim C8)\<close>

text \<open>
  Claim C8. For every lock-state frame (id 0x281, on the vehicle bus): when payload byte 1
  is 0xA9 or 0xA8 and differs from the last-seen lock byte, the locked metric is published
  (true for 0xA9, false for 0xA8) and the byte becomes the last-seen byte; in every other
  case, any other byte value or a repeated byte, the frame changes nothing and publishes
  nothing. The comparison is with the last-seen byte and never with the published metric,
  so handling the same frame a second time changes nothing.
\<close>

theorem lock_state_debounce:
  assumes "origin f = m_can1" and "MsgID f = 0x281"
  shows "IncomingFrameCan1 f s =
           (if (d1 (data f) = 0xA9 \<or> d1 (data f) = 0xA8) \<and> d1 (data f) \<noteq> last_state s
            then s\<lparr>ms_v_env_locked := (d1 (data f) = 0xA9),
                    published := published s @ [(Ms_v_env_locked, MBool (d1 (data f) = 0xA9))],
                    last_state := d1 (data f)\<rparr>
            else s) \<and>
         IncomingFrameCan1 f (IncomingFrameCan1 f s) = IncomingFrameCan1 f s"
  using assms by (auto simp add: IncomingFrameCan1_def case_0x281_def Let_def publish_def)

theorem lock_state_debounce_witness:
  "IncomingFrameCan1 (can1_frame 0x281 8 (CanData 0 0xA9 0 0 0 0 0 0)) (OvmsVehicleMaxt90 fresh_store) =
     (OvmsVehicleMaxt90 fresh_store)\<lparr>ms_v_env_locked := True,
       published := [(Ms_v_bat_capacity, MFloat (177 / 2)), (Ms_v_env_locked, MBool True)],
       last_state := 0xA9\<rparr> \<and>
   IncomingFrameCan1 (can1_frame 0x281 8 (CanData 0 0xA9 0 0 0 0 0 0))
     (IncomingFrameCan1 (can1_frame 0x281 8 (CanData 0 0xA9 0 0 0 0 0 0)) (OvmsVehicleMaxt90 fresh_store)) =
     IncomingFrameCan1 (can1_frame 0x281 8 (CanData 0 0xA9 0 0 0 0 0 0)) (OvmsVehicleMaxt90 fresh_store)"
proof -
  have o: "origin (can1_frame 0x281 8 (CanData 0 0xA9 0 0 0 0 0 0)) = m_can1"
    and m: "MsgID (can1_frame 0x281 8 (CanData 0 0xA9 0 0 0 0 0 0)) = 0x281"
    by (simp_all add: can1_frame_def m_can1_def)
  have d: "d1 (data (can1_frame 0x281 8 (CanData 0 0xA9 0 0 0 0 0 0))) = 0xA9"
    by (simp add: can1_frame_def)
  have l: "last_state (OvmsVehicleMaxt90 fresh_store) = 0"
    and p: "published (OvmsVehicleMaxt90 fresh_store) = [(Ms_v_bat_capacity, MFloat (177 / 2))]"
    by (simp_all add: constructed_fresh)
  note t = lock_state_debounce [OF o m, of "OvmsVehicleMaxt90 fresh_store"]
  from t [THEN conjunct1] have a:
    "IncomingFrameCan1 (can1_frame 0x281 8 (CanData 0 0xA9 0 0 0 0 0 0)) (OvmsVehicleMaxt90 fresh_store) =
       (OvmsVehicleMaxt90 fresh_store)\<lparr>ms_v_env_locked := True,
         published := [(Ms_v_bat_capacity, MFloat (177 / 2)), (Ms_v_env_locked, MBool True)],
         last_state := 0xA9\<rparr>"
    by (simp add: d l p)
  from a t [THEN conjunct2] show ?thesis
    by blast
qed

section \<open>VIN (claim C10)\<close>

lemma unat_u8_mod: "unat (b :: u8) mod 256 = unat b"
proof -
  have "unat b < 2 ^ LENGTH(8)" by (rule unsigned_less)
  then show ?thesis by simp
qed

lemma bytes_of_string_of_bytes: "map (\<lambda>c. word_of_nat (of_char c)) (string_of_bytes dat) = dat"
  by (simp add: string_of_bytes_def comp_def unat_u8_mod)

lemma string_of_bytes_LSH: "string_of_bytes [0x4C, 0x53, 0x48] = ''LSH''"
  by (simp add: string_of_bytes_def) code_simp

text \<open>
  Claim C10. A VIN reply (PID 0xF190) of length at least 1 overwrites the VIN metric with
  the bytes of the reply taken verbatim as text, whatever the bytes are and whatever the
  metric held; nothing else of the state changes. A reply of length 0 changes nothing.
\<close>

theorem vin_reply_verbatim:
  "IncomingPollReply 0xF190 dat s =
     (if 1 \<le> length dat
      then s\<lparr>ms_v_vin := string_of_bytes dat,
              published := published s @ [(Ms_v_vin, MString (string_of_bytes dat))]\<rparr>
      else s) \<and>
   length (string_of_bytes dat) = length dat \<and>
   map (\<lambda>c. word_of_nat (of_char c)) (string_of_bytes dat) = dat"
  by (simp add: IncomingPollReply_def case_0xF190_def Let_def publish_def
      bytes_of_string_of_bytes) (simp add: string_of_bytes_def)

theorem vin_reply_verbatim_witness:
  "IncomingPollReply 0xF190 [0x4C, 0x53, 0x48] (OvmsVehicleMaxt90 fresh_store) =
     (OvmsVehicleMaxt90 fresh_store)\<lparr>ms_v_vin := ''LSH'',
       published := [(Ms_v_bat_capacity, MFloat (177 / 2)), (Ms_v_vin, MString ''LSH'')]\<rparr> \<and>
   IncomingPollReply 0xF190 [] (OvmsVehicleMaxt90 fresh_store) = (OvmsVehicleMaxt90 fresh_store)"
  using vin_reply_verbatim [of "[0x4C, 0x53, 0x48]" "OvmsVehicleMaxt90 fresh_store"]
    vin_reply_verbatim [of "[]" "OvmsVehicleMaxt90 fresh_store"]
  by (simp add: string_of_bytes_LSH constructed_fresh)

section \<open>SOH rejection (claim C3)\<close>

lemma u16be_1800: "u16be 0x18 0x00 = 0x1800"
  by (simp add: u16be_def)

lemma f32_soh_1800: "f32_div (f32_of_nat 6144) 100 = 16106127 / 262144"
  unfolding f32_div_def f32_of_nat_def of_nat_numeral by code_simp

lemma f32_soh_bounds:
  "f32_div 5000 100 = 50" "50 < f32_div 5001 100"
  "f32_div 15000 100 = 150" "150 < f32_div 15001 100"
  unfolding f32_div_def by code_simp+

lemma soh_of_nat: "soh_of dat = f32_div (of_nat (unat (soh_raw dat))) 100"
  by (simp only: soh_of_def f32_of_nat_u16)

lemma soh_range_iff:
  "soh_of dat \<le> 50 \<longleftrightarrow> unat (soh_raw dat) \<le> 5000"
  "150 < soh_of dat \<longleftrightarrow> 15000 < unat (soh_raw dat)"
proof -
  show "soh_of dat \<le> 50 \<longleftrightarrow> unat (soh_raw dat) \<le> 5000"
    unfolding soh_of_nat by (rule f32_div_le_iff) (simp_all add: f32_soh_bounds)
  have "soh_of dat \<le> 150 \<longleftrightarrow> unat (soh_raw dat) \<le> 15000"
    unfolding soh_of_nat by (rule f32_div_le_iff) (simp_all add: f32_soh_bounds)
  then have "\<not> soh_of dat \<le> 150 \<longleftrightarrow> \<not> unat (soh_raw dat) \<le> 15000"
    by (rule arg_cong)
  then show "150 < soh_of dat \<longleftrightarrow> 15000 < unat (soh_raw dat)"
    by (simp only: not_le)
qed

text \<open>
  Claim C3. For every SOH reply (PID 0xE003) of length at least 2, with the raw value the
  big-endian 16-bit value of the first two bytes and the SOH that value divided by 100:
  the sample is rejected, the state and the log staying as they were (no write of the SOH
  metric, no new usable capacity), whenever the raw value is 0xFFFF, or it is 0x1800, or
  the SOH is at most 50 (raw value at most 5000) or above 150 (raw value above 15000).
  The raw value 0x1800 decodes to about 61.44, which
  is inside the range 50..150 and is rejected all the same.
\<close>

theorem soh_rejected:
  assumes "2 \<le> length dat"
    and "soh_raw dat = 0xFFFF \<or> soh_raw dat = 0x1800 \<or> soh_of dat \<le> 50 \<or> 150 < soh_of dat"
  shows "soh_raw dat = u16be (dat ! 0) (dat ! 1) \<and>
         soh_of dat = f32_div (f32_of_nat (unat (soh_raw dat))) 100 \<and>
         IncomingPollReply 0xE003 dat s = s \<and>
         (soh_of dat \<le> 50) = (unat (soh_raw dat) \<le> 5000) \<and>
         (150 < soh_of dat) = (15000 < unat (soh_raw dat)) \<and>
         50 < f32_div (f32_of_nat (unat (0x1800 :: u16))) 100 \<and>
         f32_div (f32_of_nat (unat (0x1800 :: u16))) 100 \<le> 150"
proof -
  from assms have "IncomingPollReply 0xE003 dat s = s"
    by (auto simp add: IncomingPollReply_def case_0xE003_def soh_raw_def soh_of_def Let_def)
  with soh_range_iff [of dat] show ?thesis
    by (simp add: soh_raw_def soh_of_def f32_soh_1800)
qed

theorem soh_rejected_witness:
  "soh_raw [0x18, 0x00] = 0x1800 \<and> soh_of [0x18, 0x00] = 16106127 / 262144 \<and>
   IncomingPollReply 0xE003 [0x18, 0x00] (OvmsVehicleMaxt90 fresh_store) = (OvmsVehicleMaxt90 fresh_store)"
proof -
  have r: "soh_raw [0x18, 0x00] = 0x1800"
    by (simp add: soh_raw_def u16be_1800)
  have l: "2 \<le> length [0x18 :: u8, 0x00]"
    by simp
  have v: "soh_of [0x18, 0x00] = 16106127 / 262144"
    by (simp add: soh_of_def r f32_soh_1800)
  from soh_rejected [OF l, of "OvmsVehicleMaxt90 fresh_store"] r v show ?thesis
    by simp
qed

section \<open>Cabin temperature (claim C7)\<close>

lemma u16be_01CA: "u16be 0x01 0xCA = 458"
  by (simp add: u16be_def)

lemma f32_temp_458: "f32_div (f32_of_nat 458) 10 = 12006195 / 262144"
  unfolding f32_div_def f32_of_nat_def of_nat_numeral by code_simp

lemma f32_temp_bounds:
  "f32_div 1250 10 = 125" "125 < f32_div 1251 10"
  unfolding f32_div_def by code_simp+

lemma hvac_temp_of_nat: "hvac_temp_of dat = f32_div (of_nat (unat (hvac_raw dat))) 10"
  by (simp only: hvac_temp_of_def f32_of_nat_u16)

lemma hvac_temp_range_iff: "125 < hvac_temp_of dat \<longleftrightarrow> 1250 < unat (hvac_raw dat)"
proof -
  have "hvac_temp_of dat \<le> 125 \<longleftrightarrow> unat (hvac_raw dat) \<le> 1250"
    unfolding hvac_temp_of_nat by (rule f32_div_le_iff) (simp_all add: f32_temp_bounds)
  then have "\<not> hvac_temp_of dat \<le> 125 \<longleftrightarrow> \<not> unat (hvac_raw dat) \<le> 1250"
    by (rule arg_cong)
  then show ?thesis
    by (simp only: not_le)
qed

lemma hvac_temp_nonneg: "0 \<le> hvac_temp_of dat"
proof -
  have "f32_round 0 \<le> f32_round (of_nat (unat (hvac_raw dat)) / 10)"
    by (rule f32_round_mono, simp, rule divide_nonneg_nonneg, rule of_nat_0_le_iff, simp)
  then show ?thesis
    unfolding hvac_temp_of_nat f32_div_def by (simp only: f32_round_0)
qed

text \<open>
  Claim C7. For every cabin temperature reply (PID 0xE010) of length at least 2: the raw
  value 458 is rejected while the readiness metric is false, and while it is true the same
  raw value is accepted and published as the single-precision value of 458 / 10, which is
  45.8 to within a millionth; whatever the readiness, the raw values 0x0200 and 0xFFFF and
  every temperature below -40 or above 125 are rejected. A rejected reply leaves the state
  and the log as they were. The raw value is unsigned, so no temperature is below -40; a
  temperature is above 125 exactly when the raw value is above 1250.
\<close>

theorem hvac_temp_filter:
  assumes "2 \<le> length dat"
  shows "hvac_raw dat = u16be (dat ! 0) (dat ! 1) \<and>
         hvac_temp_of dat = f32_div (f32_of_nat (unat (hvac_raw dat))) 10 \<and>
         (hvac_raw dat = 458 \<and> \<not> ms_v_env_on s \<longrightarrow> IncomingPollReply 0xE010 dat s = s) \<and>
         (hvac_raw dat = 458 \<and> ms_v_env_on s \<longrightarrow>
            IncomingPollReply 0xE010 dat s =
              s\<lparr>m_hvac_temp_c := f32_div 458 10,
                published := published s @ [(Xmt_v_hvac_temp, MFloat (f32_div 458 10))]\<rparr> \<and>
            \<bar>f32_div 458 10 - 458 / 10\<bar> < 1 / 1000000) \<and>
         (hvac_raw dat = 0x0200 \<or> hvac_raw dat = 0xFFFF \<or> hvac_temp_of dat < - 40 \<or>
          125 < hvac_temp_of dat \<longrightarrow> IncomingPollReply 0xE010 dat s = s) \<and>
         \<not> hvac_temp_of dat < - 40 \<and>
         (125 < hvac_temp_of dat) = (1250 < unat (hvac_raw dat))"
proof -
  have e: "f32_div 458 10 = 12006195 / 262144"
    unfolding f32_div_def by code_simp
  have n: "f32_of_nat 458 = 458"
    unfolding f32_of_nat_def of_nat_numeral by code_simp
  have r: "\<not> hvac_temp_of dat < - 40"
    using hvac_temp_nonneg [of dat] by simp
  from assms hvac_temp_range_iff [of dat] r show ?thesis
    by (auto simp add: IncomingPollReply_def case_0xE010_def hvac_raw_def hvac_temp_of_def
        Let_def publish_def e n f32_temp_458)
qed

theorem hvac_temp_filter_witness:
  "IncomingPollReply 0xE010 [0x01, 0xCA] (OvmsVehicleMaxt90 fresh_store) = (OvmsVehicleMaxt90 fresh_store) \<and>
   IncomingPollReply 0xE010 [0x01, 0xCA] ((OvmsVehicleMaxt90 fresh_store)\<lparr>ms_v_env_on := True\<rparr>) =
     (OvmsVehicleMaxt90 fresh_store)\<lparr>ms_v_env_on := True, m_hvac_temp_c := 12006195 / 262144,
       published := [(Ms_v_bat_capacity, MFloat (177 / 2)),
                     (Xmt_v_hvac_temp, MFloat (12006195 / 262144))]\<rparr>"
proof -
  have r: "hvac_raw [0x01, 0xCA] = 458"
    by (simp add: hvac_raw_def u16be_01CA)
  have l: "2 \<le> length [0x01 :: u8, 0xCA]"
    by simp
  have e: "f32_div 458 10 = 12006195 / 262144"
    unfolding f32_div_def by code_simp
  have off: "\<not> ms_v_env_on (OvmsVehicleMaxt90 fresh_store)"
    and p: "published (OvmsVehicleMaxt90 fresh_store) = [(Ms_v_bat_capacity, MFloat (177 / 2))]"
    by (simp_all add: constructed_fresh)
  from hvac_temp_filter [OF l, of "OvmsVehicleMaxt90 fresh_store"] r off
  have a: "IncomingPollReply 0xE010 [0x01, 0xCA] (OvmsVehicleMaxt90 fresh_store) = (OvmsVehicleMaxt90 fresh_store)"
    by simp
  from hvac_temp_filter [OF l, of "(OvmsVehicleMaxt90 fresh_store)\<lparr>ms_v_env_on := True\<rparr>"] r
  have b: "IncomingPollReply 0xE010 [0x01, 0xCA] ((OvmsVehicleMaxt90 fresh_store)\<lparr>ms_v_env_on := True\<rparr>) =
     (OvmsVehicleMaxt90 fresh_store)\<lparr>ms_v_env_on := True, m_hvac_temp_c := 12006195 / 262144,
       published := [(Ms_v_bat_capacity, MFloat (177 / 2)),
                     (Xmt_v_hvac_temp, MFloat (12006195 / 262144))]\<rparr>"
    by (simp add: e p)
  from a b show ?thesis by simp
qed

section \<open>Derived AC charge power (claim C1)\<close>

lemma accepted_current_gt: "accepted_current e \<Longrightarrow> lit_0_1f < current_sample e"
  by (cases e) (simp_all add: accepted_current.simps current_accepted_gt)

lemma accepted_voltage_gt: "accepted_voltage e \<Longrightarrow> 10 < voltage_sample e"
  by (cases e) (simp_all add: accepted_voltage.simps)

lemma latest_current_gt: "lit_0_1f < latest_current evs \<longleftrightarrow> filter accepted_current evs \<noteq> []"
  using accepted_current_gt [of "last (filter accepted_current evs)"]
    last_filter [of accepted_current evs] lit_0_1f_pos
  by (auto simp add: latest_current_def)

lemma latest_current_tenth: "1 / 10 < latest_current evs \<longleftrightarrow> filter accepted_current evs \<noteq> []"
  using accepted_current_gt [of "last (filter accepted_current evs)"]
    last_filter [of accepted_current evs] f32_current_bounds(5)
  by (auto simp add: latest_current_def)

lemma latest_voltage_gt: "10 < latest_voltage evs \<longleftrightarrow> filter accepted_voltage evs \<noteq> []"
  using accepted_voltage_gt [of "last (filter accepted_voltage evs)"]
    last_filter [of accepted_voltage evs]
  by (auto simp add: latest_voltage_def)

lemma run_power_step:
  "writes_of Ms_v_charge_power (run s0 (evs @ [e])) =
     writes_of Ms_v_charge_power (run s0 evs) @
     (if accepted_voltage e \<and> lit_0_1f < m_ac_current (run s0 evs) \<or>
         accepted_current e \<and> 10 < m_ac_voltage (run s0 evs)
      then [MFloat (power_kw (m_ac_voltage (run s0 (evs @ [e]))) (m_ac_current (run s0 (evs @ [e]))))]
      else [])"
  by (simp add: run_snoc handle_power)

lemma run_226V_14A_caches:
  "m_ac_voltage (run s0 []) = 0"
  "m_ac_current (run s0 []) = 0"
  "m_ac_voltage (run s0 [Frame frame_226V]) = 226"
  "m_ac_current (run s0 [Frame frame_226V]) = 0"
  "m_ac_voltage (run s0 [Frame frame_14A]) = 0"
  "m_ac_current (run s0 [Frame frame_14A]) = 7634145 / 524288"
  "m_ac_voltage (run s0 [Frame frame_226V, Frame frame_14A]) = 226"
  "m_ac_current (run s0 [Frame frame_226V, Frame frame_14A]) = 7634145 / 524288"
  "m_ac_voltage (run s0 [Frame frame_14A, Frame frame_226V]) = 226"
  "m_ac_current (run s0 [Frame frame_14A, Frame frame_226V]) = 7634145 / 524288"
  by (simp_all add: run_ac_voltage run_ac_current latest_voltage_def latest_current_def
      accepted_226V accepted_14A not_current_226V not_voltage_14A voltage_of_226V
      current_of_14A)

lemma run_Nil_power: "writes_of Ms_v_charge_power (run s0 []) = []"
  by (simp add: run_Nil writes_of_def constructed)

lemma run_226V_power: "writes_of Ms_v_charge_power (run s0 [Frame frame_226V]) = []"
  using run_power_step [of s0 "[]" "Frame frame_226V"]
  by (simp add: run_Nil_power run_226V_14A_caches not_current_226V lit_0_1f_value)

lemma run_14A_power: "writes_of Ms_v_charge_power (run s0 [Frame frame_14A]) = []"
  using run_power_step [of s0 "[]" "Frame frame_14A"]
  by (simp add: run_Nil_power run_226V_14A_caches not_voltage_14A)

text \<open>
  Claim C1. For every run since construction and every further event: the event writes the
  charge-power metric exactly when it is an accepted AC-voltage sample and the cached
  current exceeds 0.1 A, or an accepted AC-current sample and the cached voltage exceeds
  10 V; the value written is the cached voltage times the cached current, divided by
  1000, in single precision, the caches taken after the event. The cached current exceeds
  0.1 A (the literal \<^verbatim>\<open>0.1f\<close>, or the exact tenth: no cached value separates them) exactly
  when the run holds an accepted current sample, and the cached voltage exceeds 10 V
  exactly when the run holds an accepted voltage sample. So whenever the log holds a power
  value at all, the run holds an accepted voltage sample and an accepted current sample.
\<close>

theorem charge_power_derived:
  "writes_of Ms_v_charge_power (run s0 (evs @ [e])) =
     writes_of Ms_v_charge_power (run s0 evs) @
     (if accepted_voltage e \<and> lit_0_1f < m_ac_current (run s0 evs) \<or>
         accepted_current e \<and> 10 < m_ac_voltage (run s0 evs)
      then [MFloat (power_kw (m_ac_voltage (run s0 (evs @ [e]))) (m_ac_current (run s0 (evs @ [e]))))]
      else []) \<and>
   (lit_0_1f < m_ac_current (run s0 evs)) = (filter accepted_current evs \<noteq> []) \<and>
   (1 / 10 < m_ac_current (run s0 evs)) = (filter accepted_current evs \<noteq> []) \<and>
   (10 < m_ac_voltage (run s0 evs)) = (filter accepted_voltage evs \<noteq> []) \<and>
   (writes_of Ms_v_charge_power (run s0 evs) \<noteq> [] \<longrightarrow>
      filter accepted_voltage evs \<noteq> [] \<and> filter accepted_current evs \<noteq> [])"
  using run_power_history [of s0 evs] run_power_step [of s0 evs e] latest_current_gt [of evs]
    latest_current_tenth [of evs] latest_voltage_gt [of evs]
  by (simp add: run_ac_voltage run_ac_current)

text \<open>
  The two orders: voltage raw 22600 then current raw 2388, and current then voltage. Each
  publishes 226 V times 14.56 A, about 3.29 kW, with the second frame and nothing before.
\<close>

theorem charge_power_derived_witness:
  "writes_of Ms_v_charge_power (run fresh_store [Frame frame_226V]) = [] \<and>
   writes_of Ms_v_charge_power (run fresh_store [Frame frame_226V, Frame frame_14A]) =
     [MFloat (6901267 / 2097152)] \<and>
   writes_of Ms_v_charge_power (run fresh_store [Frame frame_14A]) = [] \<and>
   writes_of Ms_v_charge_power (run fresh_store [Frame frame_14A, Frame frame_226V]) =
     [MFloat (6901267 / 2097152)] \<and>
   filter accepted_voltage [Frame frame_226V, Frame frame_14A] \<noteq> [] \<and>
   filter accepted_current [Frame frame_226V, Frame frame_14A] \<noteq> []"
proof -
  have a: "writes_of Ms_v_charge_power (run fresh_store [Frame frame_226V, Frame frame_14A]) =
      [MFloat (6901267 / 2097152)]"
    using charge_power_derived [of fresh_store "[Frame frame_226V]" "Frame frame_14A", THEN conjunct1]
    by (simp add: run_226V_power run_226V_14A_caches accepted_14A f32_power)
  have b: "writes_of Ms_v_charge_power (run fresh_store [Frame frame_14A, Frame frame_226V]) =
      [MFloat (6901267 / 2097152)]"
    using charge_power_derived [of fresh_store "[Frame frame_14A]" "Frame frame_226V", THEN conjunct1]
    by (simp add: run_14A_power run_226V_14A_caches accepted_226V f32_power lit_0_1f_value)
  have c: "filter accepted_voltage [Frame frame_226V, Frame frame_14A] \<noteq> [] \<and>
      filter accepted_current [Frame frame_226V, Frame frame_14A] \<noteq> []"
    using charge_power_derived [of fresh_store "[Frame frame_226V, Frame frame_14A]"] a
    by simp
  from a b c show ?thesis
    by (simp add: run_226V_power run_14A_power)
qed

section \<open>The cached AC values (claim C9)\<close>

text \<open>
  Claim C9. In any state, an event changes the cached AC voltage only if it is an accepted
  0x362 sample, and then to that sample; it changes the cached AC current only if it is an
  accepted 0x373 sample, and then to that sample. After any run since construction each
  cache holds the most recently accepted sample of its own signal, or the construction
  default 0 when there was none; and it is 0 only then: nothing resets a cache to 0.
\<close>

theorem ac_caches_latest:
  "m_ac_voltage (handle e s) = (if accepted_voltage e then voltage_sample e else m_ac_voltage s) \<and>
   m_ac_current (handle e s) = (if accepted_current e then current_sample e else m_ac_current s) \<and>
   m_ac_voltage (run s0 []) = 0 \<and> m_ac_current (run s0 []) = 0 \<and>
   m_ac_voltage (run s0 evs) = latest_voltage evs \<and>
   m_ac_current (run s0 evs) = latest_current evs \<and>
   (m_ac_voltage (run s0 evs) = 0 \<longleftrightarrow> filter accepted_voltage evs = []) \<and>
   (m_ac_current (run s0 evs) = 0 \<longleftrightarrow> filter accepted_current evs = [])"
  using latest_voltage_zero [of evs] latest_current_zero [of evs]
  by (simp add: handle_ac_voltage handle_ac_current run_ac_voltage run_ac_current
      latest_voltage_def latest_current_def)

theorem ac_caches_latest_witness:
  "m_ac_voltage (run fresh_store [Frame frame_226V, Frame frame_14A]) = 226 \<and>
   m_ac_current (run fresh_store [Frame frame_226V, Frame frame_14A]) = 7634145 / 524288 \<and>
   m_ac_current (run fresh_store [Frame frame_226V]) = 0"
  using ac_caches_latest [of "Frame frame_14A" "run fresh_store [Frame frame_226V]" fresh_store
      "[Frame frame_226V, Frame frame_14A]"]
    ac_caches_latest [of "Frame frame_14A" "run fresh_store [Frame frame_226V]" fresh_store
      "[Frame frame_226V]"]
  by (simp add: latest_voltage_def latest_current_def accepted_226V accepted_14A
      not_current_226V not_voltage_14A voltage_of_226V current_of_14A)

section \<open>Poll-rate state machine (claim C2)\<close>

lemma handle_poll_state_le: "m_poll_state s \<le> 1 \<Longrightarrow> m_poll_state (handle e s) \<le> 1"
  by (cases e) (simp_all add: IncomingFrameCan1_keeps IncomingPollReply_poll_state)

lemma run_poll_state_le: "m_poll_state (run s0 evs) \<le> 1"
proof (induction evs rule: rev_induct)
  case Nil
  show ?case by (simp add: run_Nil constructed)
next
  case (snoc e evs)
  then show ?case unfolding run_snoc by (rule handle_poll_state_le)
qed

text \<open>
  In a state where the readiness metric is true exactly when the poll state is 1, the test
  \<^verbatim>\<open>ready != prev_ready\<close> of the source holds back nothing: the poll state moves by the
  readiness and the state alone. Such are the states of a run whose construction found the
  readiness metric false (\<open>run_poll_inv\<close>).
\<close>

lemma ready_reply_poll_state:
  assumes "poll_inv s" and "2 \<le> length dat"
  shows "m_poll_state (IncomingPollReply 0xE004 dat s) =
           (if \<not> ready_of dat \<and> m_poll_state s \<noteq> 0 then 0
            else if ready_of dat \<and> m_poll_state s = 0 then 1
            else m_poll_state s)"
  using assms by (auto simp add: IncomingPollReply_poll_state poll_inv_def split: if_splits)

lemma u16be_0004: "u16be 0x00 0x04 = 4"
  by (simp add: u16be_def)

lemma ready_of_0004: "ready_of [0x00, 0x04]"
  by (simp add: ready_of_def u16be_0004)

lemma ready_of_0000: "\<not> ready_of [0x00, 0x00]"
  by (simp add: ready_of_def u16be_def)

text \<open>
  Claim C2 gives the transition by the computed readiness and the poll state alone. The
  source makes a transition only when the readiness differs from the readiness metric as
  it was before the reply (\<^verbatim>\<open>ready != prev_ready\<close>), and the constructor does not write that
  metric. When the module is constructed on a store whose readiness metric is already
  true, the poll state is 0 (OFF), and a READY reply with bit 2 set computes readiness
  true: the claim says the state becomes 1 (ON), the source leaves it 0.
\<close>

theorem ready_unguarded_counterexample:
  "2 \<le> length [0x00 :: u8, 0x04] \<and> ready_of [0x00, 0x04] \<and>
   ms_v_env_on (run (fresh_store\<lparr>ms_v_env_on := True\<rparr>) []) \<and>
   m_poll_state (run (fresh_store\<lparr>ms_v_env_on := True\<rparr>) []) = 0 \<and>
   m_poll_state (run (fresh_store\<lparr>ms_v_env_on := True\<rparr>) [PollReply 0xE004 [0x00, 0x04]]) = 0 \<and>
   m_poll_state (run (fresh_store\<lparr>ms_v_env_on := True\<rparr>) [PollReply 0xE004 [0x00, 0x04]]) \<noteq> 1"
proof -
  let ?s = "run (fresh_store\<lparr>ms_v_env_on := True\<rparr>) []"
  have on: "ms_v_env_on ?s" and off: "m_poll_state ?s = 0"
    by (simp_all add: run_Nil constructed)
  have "run (fresh_store\<lparr>ms_v_env_on := True\<rparr>) [PollReply 0xE004 [0x00, 0x04]] =
      IncomingPollReply 0xE004 [0x00, 0x04] ?s"
    using run_snoc [of "fresh_store\<lparr>ms_v_env_on := True\<rparr>" "[]" "PollReply 0xE004 [0x00, 0x04]"]
    by simp
  then have "m_poll_state (run (fresh_store\<lparr>ms_v_env_on := True\<rparr>)
      [PollReply 0xE004 [0x00, 0x04]]) = 0"
    using on off by (simp add: IncomingPollReply_poll_state ready_of_0004)
  with on off show ?thesis
    by (simp add: ready_of_0004)
qed

text \<open>
  Claim C2 as amended. The poll state is 0 (OFF) at construction. A READY reply (PID
  0xE004) of length at least 2 publishes the computed readiness and moves the poll state
  only when that readiness differs from the readiness metric as it was before the reply;
  then it moves it to 0 when the readiness is false and the state is not 0, to 1 (ON) when
  the readiness is true and the state is 0, and not at all otherwise. When the readiness
  equals the metric there is no transition. This holds in every state. After any run
  since any construction the state is never 2 (CHARGING).
\<close>

theorem ready_poll_transitions_guarded:
  assumes "2 \<le> length dat"
  shows "ready_of dat = (u16be (dat ! 0) (dat ! 1) AND 0x000C \<noteq> 0) \<and>
         ms_v_env_on (IncomingPollReply 0xE004 dat s) = ready_of dat \<and>
         m_poll_state (IncomingPollReply 0xE004 dat s) =
           (if ready_of dat \<noteq> ms_v_env_on s
            then (if \<not> ready_of dat \<and> m_poll_state s \<noteq> 0 then 0
                  else if ready_of dat \<and> m_poll_state s = 0 then 1
                  else m_poll_state s)
            else m_poll_state s) \<and>
         m_poll_state (run s0 []) = 0 \<and>
         m_poll_state (run s0 evs) \<noteq> 2"
  using assms run_poll_state_le [of s0 evs]
  by (simp add: IncomingPollReply_poll_state ready_of_def run_Nil constructed)

text \<open>
  After a first construction a ready reply moves OFF to ON; a not-ready reply moves ON to
  OFF when the metric is true; a ready reply leaves OFF when the metric is already true.
\<close>

theorem ready_poll_transitions_guarded_witness:
  "m_poll_state (IncomingPollReply 0xE004 [0x00, 0x04] (OvmsVehicleMaxt90 fresh_store)) = 1 \<and>
   m_poll_state (IncomingPollReply 0xE004 [0x00, 0x00]
     ((OvmsVehicleMaxt90 fresh_store)\<lparr>ms_v_env_on := True, m_poll_state := 1\<rparr>)) = 0 \<and>
   m_poll_state (IncomingPollReply 0xE004 [0x00, 0x04]
     ((OvmsVehicleMaxt90 fresh_store)\<lparr>ms_v_env_on := True\<rparr>)) = 0"
proof -
  have l4: "2 \<le> length [0x00 :: u8, 0x04]" and l0: "2 \<le> length [0x00 :: u8, 0x00]"
    by simp_all
  have a: "m_poll_state (IncomingPollReply 0xE004 [0x00, 0x04] (OvmsVehicleMaxt90 fresh_store)) = 1"
    using ready_poll_transitions_guarded [OF l4, of "OvmsVehicleMaxt90 fresh_store"]
    by (simp add: ready_of_0004 constructed_fresh)
  have b: "m_poll_state (IncomingPollReply 0xE004 [0x00, 0x00]
      ((OvmsVehicleMaxt90 fresh_store)\<lparr>ms_v_env_on := True, m_poll_state := 1\<rparr>)) = 0"
    using ready_poll_transitions_guarded [OF l0,
        of "(OvmsVehicleMaxt90 fresh_store)\<lparr>ms_v_env_on := True, m_poll_state := 1\<rparr>"]
    by (simp add: ready_of_0000)
  have c: "m_poll_state (IncomingPollReply 0xE004 [0x00, 0x04]
      ((OvmsVehicleMaxt90 fresh_store)\<lparr>ms_v_env_on := True\<rparr>)) = 0"
    using ready_poll_transitions_guarded [OF l4,
        of "(OvmsVehicleMaxt90 fresh_store)\<lparr>ms_v_env_on := True\<rparr>"]
    by (simp add: ready_of_0004 constructed_fresh)
  from a b c show ?thesis by simp
qed

section \<open>Usable capacity (claim C4)\<close>

declare soh_update.simps [simp del]

lemma run_capacity_step:
  "writes_of Ms_v_bat_capacity (run s0 (evs @ [e])) =
     writes_of Ms_v_bat_capacity (run s0 evs) @
     (if soh_update e (run s0 evs)
      then [MFloat (f32_mul (177 / 2) (f32_div (soh_sample e) 100))] else [])"
  "ms_v_bat_capacity (run s0 (evs @ [e])) =
     (if soh_update e (run s0 evs) then f32_mul (177 / 2) (f32_div (soh_sample e) 100)
      else ms_v_bat_capacity (run s0 evs))"
  by (simp_all add: run_snoc handle_capacity run_pack_capacity)

lemma run_soh_step:
  "ms_v_bat_soh (run s0 (evs @ [PollReply 0xE003 dat])) =
     (if soh_accepted dat then soh_of dat else ms_v_bat_soh (run s0 evs))"
  by (simp add: run_snoc IncomingPollReply_capacity)

lemma u16be_251C: "u16be 0x25 0x1C = 9500"
  by (simp add: u16be_def)

lemma f32_soh_9500: "f32_div (f32_of_nat 9500) 100 = 95"
  unfolding f32_div_def f32_of_nat_def of_nat_numeral by code_simp

lemma f32_capacity_95: "f32_mul (177 / 2) (f32_div 95 100) = 5509939 / 65536"
  unfolding f32_div_def f32_mul_def by code_simp

lemma soh_of_251C: "soh_raw [0x25, 0x1C] = 9500" "soh_of [0x25, 0x1C] = 95"
  by (simp_all add: soh_of_def soh_raw_def u16be_251C f32_soh_9500)

lemma soh_accepted_251C: "soh_accepted [0x25, 0x1C]"
  by (simp add: soh_accepted_def soh_of_251C)

lemma run_soh_251C:
  "ms_v_bat_soh (run fresh_store []) = 0"
  "ms_v_bat_soh (run fresh_store [PollReply 0xE003 [0x25, 0x1C]]) = 95"
  using run_soh_step [of fresh_store "[]" "[0x25, 0x1C]"]
  by (simp_all add: run_Nil constructed fresh_store_def soh_accepted_251C soh_of_251C)

lemma run_Nil_capacity: "writes_of Ms_v_bat_capacity (run s0 []) = [MFloat (177 / 2)]"
  by (simp add: run_Nil writes_of_def constructed)

text \<open>
  Claim C4. After any run since construction, an event writes the usable capacity metric
  exactly when it is an accepted SOH sample whose value differs from the SOH metric at
  that moment; the value written is the nominal capacity 88.5 kWh times the SOH divided by
  100, computed in single precision as the source does, \<^verbatim>\<open>88.5f * (soh / 100.0f)\<close>. An
  accepted sample equal to the SOH metric, a rejected one and every other event leave the
  usable capacity and its log as they were.
\<close>

theorem usable_capacity_from_soh:
  "m_pack_capacity_kwh (run s0 evs) = 177 / 2 \<and>
   soh_update (PollReply pid dat) s =
     (pid = 0xE003 \<and> soh_accepted dat \<and> ms_v_bat_soh s \<noteq> soh_of dat) \<and>
   soh_update (Frame f) s = False \<and>
   writes_of Ms_v_bat_capacity (run s0 (evs @ [e])) =
     writes_of Ms_v_bat_capacity (run s0 evs) @
     (if soh_update e (run s0 evs)
      then [MFloat (f32_mul (177 / 2) (f32_div (soh_sample e) 100))] else []) \<and>
   ms_v_bat_capacity (run s0 (evs @ [e])) =
     (if soh_update e (run s0 evs) then f32_mul (177 / 2) (f32_div (soh_sample e) 100)
      else ms_v_bat_capacity (run s0 evs))"
  using run_capacity_step [of s0 evs e]
  by (simp add: run_pack_capacity soh_update.simps)

text \<open>
  SOH raw 9500 (95 %) arrives twice: the first reply writes 88.5 * 0.95, about 84.075 kWh,
  the second writes nothing.
\<close>

theorem usable_capacity_from_soh_witness:
  "writes_of Ms_v_bat_capacity (run fresh_store [PollReply 0xE003 [0x25, 0x1C]]) =
     [MFloat (177 / 2), MFloat (5509939 / 65536)] \<and>
   ms_v_bat_capacity (run fresh_store [PollReply 0xE003 [0x25, 0x1C]]) = 5509939 / 65536 \<and>
   writes_of Ms_v_bat_capacity (run fresh_store [PollReply 0xE003 [0x25, 0x1C], PollReply 0xE003 [0x25, 0x1C]]) =
     [MFloat (177 / 2), MFloat (5509939 / 65536)]"
proof -
  have u1: "soh_update (PollReply 0xE003 [0x25, 0x1C]) (run fresh_store [])"
    by (simp add: soh_update.simps soh_accepted_251C soh_of_251C run_soh_251C)
  have u2: "\<not> soh_update (PollReply 0xE003 [0x25, 0x1C]) (run fresh_store [PollReply 0xE003 [0x25, 0x1C]])"
    by (simp add: soh_update.simps soh_of_251C run_soh_251C)
  note t1 = usable_capacity_from_soh [of fresh_store "[]" _ _ _ _ "PollReply 0xE003 [0x25, 0x1C]"]
  note t2 = usable_capacity_from_soh [of fresh_store "[PollReply 0xE003 [0x25, 0x1C]]" _ _ _ _
      "PollReply 0xE003 [0x25, 0x1C]"]
  have a: "writes_of Ms_v_bat_capacity (run fresh_store [PollReply 0xE003 [0x25, 0x1C]]) =
      [MFloat (177 / 2), MFloat (5509939 / 65536)]"
    using t1 u1 by (simp add: run_Nil_capacity soh_of_251C f32_capacity_95)
  have b: "ms_v_bat_capacity (run fresh_store [PollReply 0xE003 [0x25, 0x1C]]) = 5509939 / 65536"
    using t1 u1 by (simp add: soh_of_251C f32_capacity_95)
  have c: "writes_of Ms_v_bat_capacity
      (run fresh_store [PollReply 0xE003 [0x25, 0x1C], PollReply 0xE003 [0x25, 0x1C]]) =
      [MFloat (177 / 2), MFloat (5509939 / 65536)]"
    using t2 u2 a by simp
  from a b c show ?thesis by simp
qed

section \<open>Frames shorter than their rule (claim C5)\<close>

lemma u16be_5800: "u16be 0x58 0x00 = 22528"
  by (simp add: u16be_def)

lemma f32_22528: "f32_div (f32_of_nat 22528) 100 = 7381975 / 32768"
  unfolding f32_div_def f32_of_nat_def of_nat_numeral by code_simp

lemma odometer_raw_02f090:
  "(ucast (0x90 :: u8) OR push_bit 8 (ucast (0xF0 :: u8)) OR push_bit 16 (ucast (0x02 :: u8)) :: u32)
     = 192656"
  by simp

lemma f32_odometer_192656: "f32_div (f32_of_nat 192656) 10 = 9863987 / 512"
  unfolding f32_div_def f32_of_nat_def of_nat_numeral by code_simp

lemma voltage_accepted_0x58:
  assumes "d0 (data f) = 0x58"
  shows "150 \<le> voltage_of f \<and> voltage_of f \<le> 280"
proof -
  have "unat (u16be (d0 (data f)) (d1 (data f))) = 22528 + unat (d1 (data f))"
    by (simp add: u16be_unat assms)
  with unat_u8_less [of "d1 (data f)"] show ?thesis
    by (simp add: voltage_accept_iff)
qed

text \<open>
  Claim C5 says that a frame with fewer payload bytes than its rule reads is ignored. The
  handbrake case tests the DLC and ignores a frame shorter than 3 bytes. The AC voltage
  case and the odometer case do not test it. A frame 0x362 of the one byte 0x58 is decoded
  with whatever the buffer holds as byte 1: the result lies inside the accepted range, it
  is cached and it is published; with 0 as byte 1 it is 225.28 V. A frame 0x540 of
  four bytes is decoded from bytes 4..6 of the buffer, here 0x90 0xF0 0x02, and 19265.6 km
  is published.
\<close>

theorem short_frames_decoded:
  "IncomingFrameCan1 (can1_frame 0x266 2 d) s = s \<and>
   m_ac_voltage (IncomingFrameCan1 (can1_frame 0x362 1 (CanData 0x58 b1 b2 b3 b4 b5 b6 b7)) s) =
     voltage_of (can1_frame 0x362 1 (CanData 0x58 b1 b2 b3 b4 b5 b6 b7)) \<and>
   150 \<le> voltage_of (can1_frame 0x362 1 (CanData 0x58 b1 b2 b3 b4 b5 b6 b7)) \<and>
   published (IncomingFrameCan1 (can1_frame 0x362 1 (CanData 0x58 b1 b2 b3 b4 b5 b6 b7)) s) \<noteq>
     published s \<and>
   IncomingFrameCan1 (can1_frame 0x362 1 (CanData 0x58 0 0 0 0 0 0 0)) (OvmsVehicleMaxt90 fresh_store) =
     (OvmsVehicleMaxt90 fresh_store)\<lparr>m_ac_voltage := 7381975 / 32768,
       ms_v_charge_voltage := 7381975 / 32768,
       published := [(Ms_v_bat_capacity, MFloat (177 / 2)),
                     (Ms_v_charge_voltage, MFloat (7381975 / 32768))]\<rparr> \<and>
   IncomingFrameCan1 (can1_frame 0x540 4 (CanData 0 0 0 0 0x90 0xF0 0x02 0)) (OvmsVehicleMaxt90 fresh_store) =
     (OvmsVehicleMaxt90 fresh_store)\<lparr>ms_v_pos_odometer := 9863987 / 512,
       published := [(Ms_v_bat_capacity, MFloat (177 / 2)),
                     (Ms_v_pos_odometer, MFloat (9863987 / 512))]\<rparr>"
proof -
  let ?f = "can1_frame 0x362 1 (CanData 0x58 b1 b2 b3 b4 b5 b6 b7)"
  have a: "IncomingFrameCan1 (can1_frame 0x266 2 d) s = s"
    by (simp add: IncomingFrameCan1_def case_0x266_def can1_frame_def m_can1_def)
  have o: "origin ?f = m_can1" and m: "MsgID ?f = 0x362" and d: "d0 (data ?f) = 0x58"
    by (simp_all add: can1_frame_def m_can1_def)
  note v = voltage_accepted_0x58 [OF d]
  from IncomingFrameCan1_0x362 [OF o m, of s] v
  have g: "m_ac_voltage (IncomingFrameCan1 ?f s) = voltage_of ?f"
    and h: "published (IncomingFrameCan1 ?f s) \<noteq> published s"
    by (simp_all split: if_splits)
  have b: "IncomingFrameCan1 (can1_frame 0x362 1 (CanData 0x58 0 0 0 0 0 0 0)) (OvmsVehicleMaxt90 fresh_store) =
     (OvmsVehicleMaxt90 fresh_store)\<lparr>m_ac_voltage := 7381975 / 32768,
       ms_v_charge_voltage := 7381975 / 32768,
       published := [(Ms_v_bat_capacity, MFloat (177 / 2)),
                     (Ms_v_charge_voltage, MFloat (7381975 / 32768))]\<rparr>"
    by (simp add: IncomingFrameCan1_def case_0x362_def can1_frame_def m_can1_def Let_def
        publish_def u16be_5800 f32_22528 constructed_fresh lit_0_1f_value)
  have c: "IncomingFrameCan1 (can1_frame 0x540 4 (CanData 0 0 0 0 0x90 0xF0 0x02 0))
      (OvmsVehicleMaxt90 fresh_store) =
     (OvmsVehicleMaxt90 fresh_store)\<lparr>ms_v_pos_odometer := 9863987 / 512,
       published := [(Ms_v_bat_capacity, MFloat (177 / 2)),
                     (Ms_v_pos_odometer, MFloat (9863987 / 512))]\<rparr>"
    by (simp add: IncomingFrameCan1_def case_0x540_def can1_frame_def m_can1_def Let_def
        publish_def f32_odometer_192656 constructed_fresh)
  from a g v h b c show ?thesis by blast
qed

end
